theory Spec2Isabelle
  imports Main
begin

section \<open>Text\<close>

text \<open>
  Source text is a \<^typ>\<open>string\<close>; a \<^typ>\<open>char\<close> stands for one code point below 256, so
  \<^const>\<open>length\<close> counts what Python's \<^verbatim>\<open>len\<close> counts. Code points from 256 on are not
  represented.
\<close>

definition LF :: char where "LF = CHR 0x0A"
definition CR :: char where "CR = CHR 0x0D"
definition DQUOTE :: char where "DQUOTE = CHR 0x22"

text \<open>
  \<^verbatim>\<open>str.isspace\<close> on one character, which is also what \<^verbatim>\<open>\s\<close> matches in a \<^verbatim>\<open>str\<close>
  pattern and what \<^verbatim>\<open>strip\<close> and \<^verbatim>\<open>rstrip\<close> remove: tab to carriage return,
  the four separators 0x1C to 0x1F, the blank, NEL and the no-break space.
\<close>

definition is_space :: "char \<Rightarrow> bool" where
  "is_space c = (c \<in> set [CHR 0x09, CHR 0x0A, CHR 0x0B, CHR 0x0C, CHR 0x0D,
                           CHR 0x1C, CHR 0x1D, CHR 0x1E, CHR 0x1F, CHR 0x20, CHR 0x85, CHR 0xA0])"

text \<open>The line boundaries of \<^verbatim>\<open>str.splitlines\<close> (the pair CR LF counts once).\<close>

definition is_linebreak :: "char \<Rightarrow> bool" where
  "is_linebreak c = (c \<in> set [CHR 0x0A, CHR 0x0B, CHR 0x0C, CHR 0x0D,
                               CHR 0x1C, CHR 0x1D, CHR 0x1E, CHR 0x85])"

definition is_digit :: "char \<Rightarrow> bool" where
  "is_digit c = (c \<in> set ''0123456789'')"

definition lower_letters :: string where
  "lower_letters = ''abcdefghijklmnopqrstuvwxyz'' @
     [CHR 0xE0, CHR 0xE1, CHR 0xE2, CHR 0xE3, CHR 0xE4, CHR 0xE5, CHR 0xE6, CHR 0xE7,
      CHR 0xE8, CHR 0xE9, CHR 0xEA, CHR 0xEB, CHR 0xEC, CHR 0xED, CHR 0xEE, CHR 0xEF,
      CHR 0xF0, CHR 0xF1, CHR 0xF2, CHR 0xF3, CHR 0xF4, CHR 0xF5, CHR 0xF6,
      CHR 0xF8, CHR 0xF9, CHR 0xFA, CHR 0xFB, CHR 0xFC, CHR 0xFD, CHR 0xFE]"

definition upper_letters :: string where
  "upper_letters = ''ABCDEFGHIJKLMNOPQRSTUVWXYZ'' @
     [CHR 0xC0, CHR 0xC1, CHR 0xC2, CHR 0xC3, CHR 0xC4, CHR 0xC5, CHR 0xC6, CHR 0xC7,
      CHR 0xC8, CHR 0xC9, CHR 0xCA, CHR 0xCB, CHR 0xCC, CHR 0xCD, CHR 0xCE, CHR 0xCF,
      CHR 0xD0, CHR 0xD1, CHR 0xD2, CHR 0xD3, CHR 0xD4, CHR 0xD5, CHR 0xD6,
      CHR 0xD8, CHR 0xD9, CHR 0xDA, CHR 0xDB, CHR 0xDC, CHR 0xDD, CHR 0xDE]"

text \<open>
  \<^verbatim>\<open>str.upper\<close>: a to z and the accented small letters go to their capitals and the
  sharp s (0xDF) becomes SS. The capitals of the micro sign (0xB5) and of the y with
  diaeresis (0xFF) lie beyond 255; no character below 256 has them as its capital and
  \<^verbatim>\<open>upper\<close> never returns the two small letters, so each stands for its own capital
  here.
\<close>

definition upper_char :: "char \<Rightarrow> string" where
  "upper_char c =
     (if c = CHR 0xDF then ''SS''
      else case map_of (zip lower_letters upper_letters) c of
             Some u \<Rightarrow> [u]
           | None \<Rightarrow> [c])"

definition upper :: "string \<Rightarrow> string" where
  "upper s = concat (map upper_char s)"

definition rstrip :: "string \<Rightarrow> string" where
  "rstrip s = rev (dropWhile is_space (rev s))"

definition strip :: "string \<Rightarrow> string" where
  "strip s = dropWhile is_space (rstrip s)"

text \<open>
  \<^verbatim>\<open>str.splitlines\<close>: the first argument is the line being read. A line boundary ends
  it, also when it is empty; the end of the text ends it only when it is not empty.
\<close>

fun splitlines_from :: "string \<Rightarrow> string \<Rightarrow> string list" where
  "splitlines_from cur [] = (if cur = [] then [] else [cur])"
| "splitlines_from cur [c] = (if is_linebreak c then [cur] else [cur @ [c]])"
| "splitlines_from cur (c # d # cs) =
     (if c = CR \<and> d = LF then cur # splitlines_from [] cs
      else if is_linebreak c then cur # splitlines_from [] (d # cs)
      else splitlines_from (cur @ [c]) (d # cs))"

definition splitlines :: "string \<Rightarrow> string list" where
  "splitlines s = splitlines_from [] s"

section \<open>Tokens (main.py)\<close>

datatype TokenType =
  KEYWORD | IDENTIFIER | LITERAL | NUMBER | OPERATOR | PUNCTUATION | COMMENT
  | DIVISION | SECTION | PARAGRAPH | STATEMENT | SPECIAL | UNKNOWN

text \<open>The fields \<^verbatim>\<open>type\<close>, \<^verbatim>\<open>value\<close>, \<^verbatim>\<open>line\<close> and \<^verbatim>\<open>column\<close> of a Token.\<close>

record Token =
  tok_type :: TokenType
  tok_value :: string
  tok_line :: int
  tok_column :: int

section \<open>The tokenizer (CobolTokenizer.py)\<close>

definition KEYWORDS :: "string list" where
  "KEYWORDS = [
     ''ACCEPT'', ''ACCESS'', ''ADD'', ''ADDRESS'', ''ADVANCING'', ''AFTER'', ''ALL'', ''ALPHABET'',
     ''ALPHABETIC'', ''ALPHABETIC-LOWER'', ''ALPHABETIC-UPPER'', ''ALPHANUMERIC'', ''ALPHANUMERIC-EDITED'',
     ''ALSO'', ''ALTER'', ''ALTERNATE'', ''AND'', ''ANY'', ''APPLY'', ''ARE'', ''AREA'', ''AREAS'', ''ASCENDING'',
     ''ASSIGN'', ''AT'', ''AUTHOR'', ''BASIS'', ''BEFORE'', ''BEGINNING'', ''BINARY'', ''BLANK'', ''BLOCK'',
     ''BOTTOM'', ''BY'', ''CALL'', ''CANCEL'', ''CBL'', ''CD'', ''CF'', ''CH'', ''CHARACTER'', ''CHARACTERS'',
     ''CLASS'', ''CLOCK-UNITS'', ''CLOSE'', ''COBOL'', ''CODE'', ''CODE-SET'', ''COLLATING'', ''COLUMN'',
     ''COMMA'', ''COMMON'', ''COMMUNICATION'', ''COMP'', ''COMP-1'', ''COMP-2'', ''COMP-3'', ''COMP-4'',
     ''COMPUTATIONAL'', ''COMPUTATIONAL-1'', ''COMPUTATIONAL-2'', ''COMPUTATIONAL-3'', ''COMPUTATIONAL-4'',
     ''COMPUTE'', ''CONFIGURATION'', ''CONTAINS'', ''CONTENT'', ''CONTINUE'', ''CONTROL'', ''CONTROLS'',
     ''CONVERTING'', ''COPY'', ''CORR'', ''CORRESPONDING'', ''COUNT'', ''CURRENCY'', ''DATA'', ''DATE'',
     ''DATE-COMPILED'', ''DATE-WRITTEN'', ''DAY'', ''DAY-OF-WEEK'', ''DB'', ''DB-ACCESS-CONTROL-KEY'',
     ''DB-DATA-NAME'', ''DB-EXCEPTION'', ''DB-RECORD-NAME'', ''DB-SET-NAME'', ''DB-STATUS'', ''DBCS'',
     ''DE'', ''DEBUG-CONTENTS'', ''DEBUG-ITEM'', ''DEBUG-LINE'', ''DEBUG-NAME'', ''DEBUG-SUB-1'',
     ''DEBUG-SUB-2'', ''DEBUG-SUB-3'', ''DEBUGGING'', ''DECIMAL-POINT'', ''DECLARATIVES'', ''DELETE'',
     ''DELIMITED'', ''DELIMITER'', ''DEPENDING'', ''DESCENDING'', ''DESTINATION'', ''DETAIL'', ''DISABLE'',
     ''DISPLAY'', ''DIVIDE'', ''DIVISION'', ''DOWN'', ''DUPLICATES'', ''DYNAMIC'', ''EGI'', ''ELSE'', ''EMI'',
     ''ENABLE'', ''ENCRYPTION'', ''END'', ''END-ADD'', ''END-CALL'', ''END-COMPUTE'', ''END-DELETE'',
     ''END-DIVIDE'', ''END-EVALUATE'', ''END-EXEC'', ''END-IF'', ''END-MULTIPLY'', ''END-OF-PAGE'',
     ''END-PERFORM'', ''END-READ'', ''END-RECEIVE'', ''END-RETURN'', ''END-REWRITE'', ''END-SEARCH'',
     ''END-START'', ''END-STRING'', ''END-SUBTRACT'', ''END-UNSTRING'', ''END-WRITE'', ''ENDING'', ''ENTER'',
     ''ENTRY'', ''ENVIRONMENT'', ''EOP'', ''EQUAL'', ''ERROR'', ''ESI'', ''EVALUATE'', ''EVERY'', ''EXCEPTION'',
     ''EXEC'', ''EXECUTE'', ''EXIT'', ''EXTEND'', ''EXTERNAL'', ''FALSE'', ''FD'', ''FILE'', ''FILE-CONTROL'',
     ''FILLER'', ''FINAL'', ''FIRST'', ''FOOTING'', ''FOR'', ''FROM'', ''FUNCTION'', ''GENERATE'', ''GIVING'',
     ''GLOBAL'', ''GO'', ''GOBACK'', ''GREATER'', ''GROUP'', ''HEADING'', ''HIGH-VALUE'', ''HIGH-VALUES'',
     ''I-O'', ''I-O-CONTROL'', ''ID'', ''IDENTIFICATION'', ''IF'', ''IN'', ''INDEX'', ''INDEXED'', ''INDICATE'',
     ''INITIAL'', ''INITIALIZE'', ''INITIATE'', ''INPUT'', ''INPUT-OUTPUT'', ''INSPECT'', ''INSTALLATION'',
     ''INTO'', ''INVALID'', ''INVOKE'', ''IS'', ''JUST'', ''JUSTIFIED'', ''KEY'', ''LABEL'', ''LAST'', ''LEADING'',
     ''LEFT'', ''LENGTH'', ''LESS'', ''LIMIT'', ''LIMITS'', ''LINAGE'', ''LINAGE-COUNTER'', ''LINE'',
     ''LINE-COUNTER'', ''LINES'', ''LINKAGE'', ''LOCAL-STORAGE'', ''LOCK'', ''LOW-VALUE'', ''LOW-VALUES'',
     ''MEMORY'', ''MERGE'', ''MESSAGE'', ''METACLASS'', ''METHOD'', ''METHOD-ID'', ''MODE'', ''MODULES'',
     ''MORE-LABELS'', ''MOVE'', ''MULTIPLE'', ''MULTIPLY'', ''NATIVE'', ''NEGATIVE'', ''NEXT'', ''NO'',
     ''NOT'', ''NULL'', ''NULLS'', ''NUMBER'', ''NUMERIC'', ''NUMERIC-EDITED'', ''OBJECT'', ''OBJECT-COMPUTER'',
     ''OCCURS'', ''OF'', ''OFF'', ''OMITTED'', ''ON'', ''OPEN'', ''OPTIONAL'', ''OR'', ''ORDER'', ''ORGANIZATION'',
     ''OTHER'', ''OUTPUT'', ''OVERFLOW'', ''OVERRIDE'', ''PACKED-DECIMAL'', ''PADDING'', ''PAGE'',
     ''PAGE-COUNTER'', ''PASSWORD'', ''PERFORM'', ''PF'', ''PH'', ''PIC'', ''PICTURE'', ''PLUS'', ''POINTER'',
     ''POSITION'', ''POSITIVE'', ''PRINTING'', ''PROCEDURE'', ''PROCEDURES'', ''PROCEED'', ''PROGRAM'',
     ''PROGRAM-ID'', ''PROPERTY'', ''PROTOTYPE'', ''PURGE'', ''QUEUE'', ''QUOTE'', ''QUOTES'', ''RANDOM'',
     ''RD'', ''READ'', ''READY'', ''RECEIVE'', ''RECORD'', ''RECORDING'', ''RECORDS'', ''RECURSIVE'',
     ''REDEFINES'', ''REEL'', ''REFERENCE'', ''REFERENCES'', ''RELATIVE'', ''RELEASE'', ''RELOAD'',
     ''REMAINDER'', ''REMOVAL'', ''RENAMES'', ''REPLACE'', ''REPLACING'', ''REPORT'', ''REPORTING'',
     ''REPORTS'', ''REPOSITORY'', ''RERUN'', ''RESERVE'', ''RESET'', ''RETURN'', ''RETURNING'', ''REVERSED'',
     ''REWIND'', ''REWRITE'', ''RF'', ''RH'', ''RIGHT'', ''ROUNDED'', ''RUN'', ''SAME'', ''SD'', ''SEARCH'',
     ''SECTION'', ''SECURITY'', ''SEGMENT'', ''SEGMENT-LIMIT'', ''SELECT'', ''SELF'', ''SEND'', ''SENTENCE'',
     ''SEPARATE'', ''SEQUENCE'', ''SEQUENTIAL'', ''SERVICE'', ''SET'', ''SHIFT-IN'', ''SHIFT-OUT'', ''SIGN'',
     ''SIZE'', ''SKIP1'', ''SKIP2'', ''SKIP3'', ''SORT'', ''SORT-CONTROL'', ''SORT-CORE-SIZE'',
     ''SORT-FILE-SIZE'', ''SORT-MERGE'', ''SORT-MESSAGE'', ''SORT-MODE-SIZE'', ''SORT-RETURN'',
     ''SOURCE'', ''SOURCE-COMPUTER'', ''SPACE'', ''SPACES'', ''SPECIAL-NAMES'', ''STANDARD'',
     ''STANDARD-1'', ''STANDARD-2'', ''START'', ''STATUS'', ''STOP'', ''STRING'', ''SUB-QUEUE-1'',
     ''SUB-QUEUE-2'', ''SUB-QUEUE-3'', ''SUBTRACT'', ''SUM'', ''SUPER'', ''SUPPRESS'', ''SYMBOLIC'',
     ''SYNC'', ''SYNCHRONIZED'', ''TABLE'', ''TALLY'', ''TALLYING'', ''TAPE'', ''TERMINAL'', ''TERMINATE'',
     ''TEST'', ''TEXT'', ''THAN'', ''THEN'', ''THROUGH'', ''THRU'', ''TIME'', ''TIMES'', ''TITLE'', ''TO'',
     ''TOP'', ''TRACE'', ''TRAILING'', ''TRUE'', ''TYPE'', ''UNIT'', ''UNSTRING'', ''UNTIL'', ''UP'', ''UPON'',
     ''USAGE'', ''USE'', ''USING'', ''VALUE'', ''VALUES'', ''VARYING'', ''WHEN'', ''WITH'', ''WORDS'',
     ''WORKING-STORAGE'', ''WRITE'', ''ZERO'', ''ZEROES'', ''ZEROS''
  ]"

definition DIVISIONS :: "string list" where
  "DIVISIONS = [''IDENTIFICATION'', ''ENVIRONMENT'', ''DATA'', ''PROCEDURE'']"

subsection \<open>The patterns, each tried at the start of the rest of the line\<close>

text \<open>\<^verbatim>\<open>\s+\<close>: the length of the match.\<close>

definition match_whitespace :: "string \<Rightarrow> nat option" where
  "match_whitespace s =
     (let n = length (takeWhile is_space s) in if n = 0 then None else Some n)"

text \<open>
  \<^verbatim>\<open>^\*.*$|^/.+/$\<close>, tried on the slice \<^verbatim>\<open>line[position:]\<close>, so that \<^verbatim>\<open>^\<close> is the scan
  position: the matched text. The dot matches every character but the line feed, and
  \<^verbatim>\<open>$\<close> matches at the end of the slice or before a line feed that ends it.
\<close>

definition match_comment :: "string \<Rightarrow> string option" where
  "match_comment s =
     (case s of
        [] \<Rightarrow> None
      | c # cs \<Rightarrow>
          if c = CHR ''*'' then
            (let body = takeWhile (\<lambda>x. x \<noteq> LF) cs;
                 rest = dropWhile (\<lambda>x. x \<noteq> LF) cs
             in if rest = [] \<or> rest = [LF] then Some (c # body) else None)
          else if c = CHR ''/'' then
            (let t = (if cs \<noteq> [] \<and> last cs = LF then butlast cs else cs)
             in if 2 \<le> length t \<and> last t = CHR ''/'' \<and> LF \<notin> set t
                then Some (c # t) else None)
          else None)"

text \<open>\<^verbatim>\<open>"([^"]*)"\<close>: the text between the quotes; the match is two characters longer.\<close>

definition match_string_literal :: "string \<Rightarrow> string option" where
  "match_string_literal s =
     (case s of
        [] \<Rightarrow> None
      | c # cs \<Rightarrow>
          if c = DQUOTE \<and> DQUOTE \<in> set cs
          then Some (takeWhile (\<lambda>x. x \<noteq> DQUOTE) cs) else None)"

text \<open>\<^verbatim>\<open>\d+(\.\d+)?\<close>: the matched text.\<close>

definition match_number :: "string \<Rightarrow> string option" where
  "match_number s =
     (let ds = takeWhile is_digit s in
      if ds = [] then None
      else case dropWhile is_digit s of
             [] \<Rightarrow> Some ds
           | d # r \<Rightarrow>
               (let fs = takeWhile is_digit r in
                if d = CHR ''.'' \<and> fs \<noteq> [] then Some (ds @ d # fs) else Some ds))"

definition is_alnum :: "char \<Rightarrow> bool" where
  "is_alnum c = (c \<in> set ''ABCDEFGHIJKLMNOPQRSTUVWXYZabcdefghijklmnopqrstuvwxyz0123456789'')"

text \<open>\<^verbatim>\<open>[A-Za-z0-9][-A-Za-z0-9]*\<close>: the matched text.\<close>

definition match_identifier :: "string \<Rightarrow> string option" where
  "match_identifier s =
     (case s of
        [] \<Rightarrow> None
      | c # cs \<Rightarrow>
          if is_alnum c then Some (c # takeWhile (\<lambda>x. is_alnum x \<or> x = CHR ''-'') cs)
          else None)"

definition is_operator :: "char \<Rightarrow> bool" where
  "is_operator c = (c \<in> set ''+-*/=<>'')"

definition is_punctuation :: "char \<Rightarrow> bool" where
  "is_punctuation c = (c \<in> set ''.,;:'')"

definition is_special :: "char \<Rightarrow> bool" where
  "is_special c = (c \<in> set ''(){}[]'')"

text \<open>The type of an identifier match: keyword or identifier first, then division.\<close>

definition word_type :: "string \<Rightarrow> TokenType" where
  "word_type text =
     (let token_type = (if upper text \<in> set KEYWORDS then KEYWORD else IDENTIFIER)
      in if upper text \<in> set DIVISIONS then DIVISION else token_type)"

subsection \<open>One iteration of the scan of a line\<close>

text \<open>
  \<open>scan_step s ln col\<close> is one iteration of the loop of \<^verbatim>\<open>_tokenize_line\<close> on the slice
  \<open>s = line[position:]\<close>: the token it appends, if any, and by how much it moves
  \<^verbatim>\<open>position\<close> and \<^verbatim>\<open>current_column\<close>. The first pattern that matches wins; the last
  branch takes the one character \<^verbatim>\<open>line[position]\<close>.
\<close>

definition scan_step :: "string \<Rightarrow> int \<Rightarrow> int \<Rightarrow> Token option \<times> nat" where
  "scan_step s ln col =
     (case match_whitespace s of
        Some n \<Rightarrow> (None, n)
      | None \<Rightarrow>
     (case match_comment s of
        Some t \<Rightarrow> (Some \<lparr>tok_type = COMMENT, tok_value = t, tok_line = ln, tok_column = col\<rparr>,
                   length t)
      | None \<Rightarrow>
     (case match_string_literal s of
        Some t \<Rightarrow> (Some \<lparr>tok_type = LITERAL, tok_value = t, tok_line = ln, tok_column = col\<rparr>,
                   length t + 2)
      | None \<Rightarrow>
     (case match_number s of
        Some t \<Rightarrow> (Some \<lparr>tok_type = NUMBER, tok_value = t, tok_line = ln, tok_column = col\<rparr>,
                   length t)
      | None \<Rightarrow>
     (case match_identifier s of
        Some t \<Rightarrow> (Some \<lparr>tok_type = word_type t, tok_value = t, tok_line = ln,
                         tok_column = col\<rparr>, length t)
      | None \<Rightarrow>
     (let c = hd s in
      if is_operator c then
        (Some \<lparr>tok_type = OPERATOR, tok_value = [c], tok_line = ln, tok_column = col\<rparr>, 1)
      else if is_punctuation c then
        (Some \<lparr>tok_type = PUNCTUATION, tok_value = [c], tok_line = ln, tok_column = col\<rparr>, 1)
      else if is_special c then
        (Some \<lparr>tok_type = SPECIAL, tok_value = [c], tok_line = ln, tok_column = col\<rparr>, 1)
      else
        (Some \<lparr>tok_type = UNKNOWN, tok_value = [c], tok_line = ln, tok_column = col\<rparr>, 1)))))))"

lemma scan_step_advances: "s \<noteq> [] \<Longrightarrow> 0 < snd (scan_step s ln col)"
  by (auto simp: scan_step_def match_whitespace_def match_comment_def match_number_def
      match_identifier_def Let_def split: option.splits list.splits if_splits)

subsection \<open>The scan of a line and of the whole text\<close>

text \<open>
  \<^verbatim>\<open>_tokenize_line\<close>, from \<open>position\<close> on: the tokens appended from there to the end of
  the line. \<open>ln\<close> and \<open>col\<close> are \<^verbatim>\<open>self.current_line\<close> and \<^verbatim>\<open>self.current_column\<close>.
\<close>

function tokenize_line :: "string \<Rightarrow> nat \<Rightarrow> int \<Rightarrow> int \<Rightarrow> Token list" where
  "tokenize_line line position ln col =
     (if position < length line then
        (case scan_step (drop position line) ln col of
           (tok, n) \<Rightarrow>
             (case tok of None \<Rightarrow> [] | Some t \<Rightarrow> [t])
               @ tokenize_line line (position + n) ln (col + int n))
      else [])"
  by pat_completeness auto
termination
proof (relation "measure (\<lambda>(line, position, ln, col). length line - position)")
  show "wf (measure (\<lambda>(line, position, ln, col). length line - position))"
    by simp
next
  fix line :: string and position :: nat and ln col :: int and tok :: "Token option"
    and n :: nat
  assume less: "position < length line"
    and step: "(tok, n) = scan_step (drop position line) ln col"
  from less have "drop position line \<noteq> []"
    by simp
  then have "0 < snd (scan_step (drop position line) ln col)"
    by (rule scan_step_advances)
  with step have "0 < n"
    by (metis snd_conv)
  with less show "((line, position + n, ln, col + int n), (line, position, ln, col))
      \<in> measure (\<lambda>(line, position, ln, col). length line - position)"
    by simp
qed

declare tokenize_line.simps [simp del]

text \<open>
  The loop of \<^verbatim>\<open>tokenize\<close> over \<^verbatim>\<open>enumerate(lines, 1)\<close>: a line of at most six
  characters gives nothing, an asterisk in column 7 of a line of more than seven gives
  one comment, and any other line is scanned from column 7 with its trailing white
  space removed.
\<close>

fun tokenize_lines :: "string list \<Rightarrow> int \<Rightarrow> Token list" where
  "tokenize_lines [] line_num = []"
| "tokenize_lines (line # rest) line_num =
     (if 6 < length line then
        (if 7 < length line \<and> line ! 6 = CHR ''*'' then
           [\<lparr>tok_type = COMMENT, tok_value = strip (drop 7 line), tok_line = line_num,
             tok_column = 7\<rparr>]
         else tokenize_line (rstrip (drop 6 line)) 0 line_num 7)
      else [])
     @ tokenize_lines rest (line_num + 1)"

definition tokenize :: "string \<Rightarrow> Token list" where
  "tokenize source_code = tokenize_lines (splitlines source_code) 1"

text \<open>
  A character that starts no pattern: no white space, letter or digit, operator,
  punctuation mark, bracket or double quote.
\<close>

definition unrecognized :: "char \<Rightarrow> bool" where
  "unrecognized c = (\<not> is_space c \<and> \<not> is_alnum c \<and> \<not> is_operator c \<and> \<not> is_punctuation c
      \<and> \<not> is_special c \<and> c \<noteq> DQUOTE)"


section \<open>The program model (main.py)\<close>

text \<open>
  One record for each dataclass. A field keeps its name where the name is free; where
  several classes share one (\<^verbatim>\<open>name\<close>, \<^verbatim>\<open>location\<close>, \<^verbatim>\<open>start_line\<close>, \<^verbatim>\<open>end_line\<close>) or
  the name is reserved, the class is put in front. A \<^verbatim>\<open>None\<close> default is an option, a
  dictionary is a map. The lists \<^verbatim>\<open>statements\<close> and \<^verbatim>\<open>calls\<close> of a Paragraph are written
  nowhere in the parser and are left out.
\<close>

record FileReference =
  file_name :: string
  file_access_mode :: string
  file_organization :: "string option"
  file_record_key :: "string option"
  file_location :: "int \<times> int"

record ProgramCall =
  call_target :: string
  call_is_dynamic :: bool
  call_parameters :: "string list"
  call_location :: "int \<times> int"

record DataItem =
  item_name :: string
  item_level :: int
  item_picture :: "string option"
  item_usage :: "string option"
  item_value :: "string option"
  item_redefines :: "string option"
  item_occurs :: "int option"
  item_indexed_by :: "string list"
  item_location :: "int \<times> int"

record Paragraph =
  paragraph_name :: string
  paragraph_start_line :: int
  paragraph_end_line :: int

record Section =
  section_name :: string
  section_start_line :: int
  section_end_line :: int
  section_paragraphs :: "string \<rightharpoonup> Paragraph"

record Division =
  division_name :: string
  division_start_line :: int
  division_end_line :: int
  division_sections :: "string \<rightharpoonup> Section"

record Resource =
  resource_name :: string
  resource_type :: string
  resource_operation :: string
  resource_location :: "int \<times> int"

record CobolProgram =
  program_name :: string
  source_path :: string
  divisions :: "string \<rightharpoonup> Division"
  data_items :: "string \<rightharpoonup> DataItem"
  files :: "FileReference list"
  calls :: "ProgramCall list"
  resources :: "Resource list"
  called_by :: "string set"
  maps_used :: "string set"
  copybooks :: "string set"

section \<open>The parser (CobolParser.py)\<close>

text \<open>
  Every pass reads the same token list \<open>ts\<close> by index, as the source does; an index is
  read only under the bound check the source makes before it.
\<close>

definition value_upper :: "Token \<Rightarrow> string" where
  "value_upper t = upper (tok_value t)"

subsection \<open>Scopes and data items: \<^verbatim>\<open>_parse_divisions\<close>\<close>

text \<open>
  \<^verbatim>\<open>int(text)\<close> in base ten: white space around the number is dropped, one sign may
  lead, and single underscores may stand between digits. \<open>None\<close> is the ValueError.
  (The limit that recent interpreters put on the number of digits is not modelled; it
  is a ValueError as well.)
\<close>

definition digit_value :: "char \<Rightarrow> int" where
  "digit_value c = int (length (takeWhile (\<lambda>d. d \<noteq> c) ''0123456789''))"

fun digits_ok :: "string \<Rightarrow> bool" where
  "digits_ok [] = False"
| "digits_ok [c] = is_digit c"
| "digits_ok (c # d # r) =
     (is_digit c \<and> (if d = CHR ''_'' then digits_ok r else digits_ok (d # r)))"

definition py_int :: "string \<Rightarrow> int option" where
  "py_int s =
     (let t = strip s;
          negative = (t \<noteq> [] \<and> hd t = CHR ''-'');
          body = (if t \<noteq> [] \<and> (hd t = CHR ''-'' \<or> hd t = CHR ''+'') then tl t else t)
      in if digits_ok body
         then Some ((if negative then - 1 else 1)
                * foldl (\<lambda>a c. 10 * a + digit_value c) 0 (filter (\<lambda>c. c \<noteq> CHR ''_'') body))
         else None)"

text \<open>
  The three variables \<^verbatim>\<open>current_division\<close>, \<^verbatim>\<open>current_section\<close> and
  \<^verbatim>\<open>current_paragraph\<close> of the pass (\<open>None\<close> while no scope is open) and the two
  dictionaries of the program that the pass fills.
\<close>

record scopes =
  current_division :: "Division option"
  current_section :: "Section option"
  current_paragraph :: "Paragraph option"
  program_divisions :: "string \<rightharpoonup> Division"
  program_data_items :: "string \<rightharpoonup> DataItem"

text \<open>
  The three blocks that the source writes out at each place where scopes end: the open
  paragraph, if any, gets its end line and goes into the section; the open section, if
  any, takes the paragraph, gets its end line and goes into the division; the open
  division, if any, takes the section, gets its end line and goes into the program.
\<close>

definition end_paragraph :: "Paragraph option \<Rightarrow> int \<Rightarrow> Section \<Rightarrow> Section" where
  "end_paragraph par e s =
     (case par of
        None \<Rightarrow> s
      | Some p \<Rightarrow>
          s\<lparr>section_paragraphs :=
              (section_paragraphs s)(paragraph_name p \<mapsto> p\<lparr>paragraph_end_line := e\<rparr>)\<rparr>)"

definition end_section :: "Section option \<Rightarrow> Paragraph option \<Rightarrow> int \<Rightarrow> Division \<Rightarrow> Division" where
  "end_section sec par e d =
     (case sec of
        None \<Rightarrow> d
      | Some s \<Rightarrow>
          (let s' = (end_paragraph par e s)\<lparr>section_end_line := e\<rparr>
           in d\<lparr>division_sections := (division_sections d)(section_name s' \<mapsto> s')\<rparr>))"

definition end_division ::
  "Division option \<Rightarrow> Section option \<Rightarrow> Paragraph option \<Rightarrow> int
    \<Rightarrow> (string \<rightharpoonup> Division) \<Rightarrow> (string \<rightharpoonup> Division)" where
  "end_division dv sec par e divs =
     (case dv of
        None \<Rightarrow> divs
      | Some d \<Rightarrow>
          (let d' = (end_section sec par e d)\<lparr>division_end_line := e\<rparr>
           in divs(division_name d' \<mapsto> d')))"

text \<open>
  The clause scan behind a level number and a name: from index \<open>j\<close>, while the token is
  on line \<open>ln\<close>. A clause word with a token behind it takes that token and moves on by
  two, anything else moves on by one.
\<close>

function item_clauses :: "Token list \<Rightarrow> int \<Rightarrow> nat \<Rightarrow> DataItem \<Rightarrow> DataItem" where
  "item_clauses ts ln j item =
     (if j < length ts \<and> tok_line (ts ! j) = ln then
        (if value_upper (ts ! j) \<in> set [''PIC'', ''PICTURE''] \<and> j + 1 < length ts then
           item_clauses ts ln (j + 2) (item\<lparr>item_picture := Some (tok_value (ts ! (j + 1)))\<rparr>)
         else if value_upper (ts ! j) = ''USAGE'' \<and> j + 1 < length ts then
           item_clauses ts ln (j + 2) (item\<lparr>item_usage := Some (tok_value (ts ! (j + 1)))\<rparr>)
         else if value_upper (ts ! j) = ''VALUE'' \<and> j + 1 < length ts then
           item_clauses ts ln (j + 2) (item\<lparr>item_value := Some (tok_value (ts ! (j + 1)))\<rparr>)
         else if value_upper (ts ! j) = ''REDEFINES'' \<and> j + 1 < length ts then
           item_clauses ts ln (j + 2) (item\<lparr>item_redefines := Some (tok_value (ts ! (j + 1)))\<rparr>)
         else if value_upper (ts ! j) = ''OCCURS'' \<and> j + 1 < length ts then
           item_clauses ts ln (j + 2)
             (item\<lparr>item_occurs :=
                Some (case py_int (tok_value (ts ! (j + 1))) of Some n \<Rightarrow> n | None \<Rightarrow> 0)\<rparr>)
         else item_clauses ts ln (j + 1) item)
      else item)"
  by pat_completeness auto
termination
  by (relation "measure (\<lambda>(ts, ln, j, item). length ts - j)") auto

declare item_clauses.simps [simp del]

text \<open>The body of the loop of \<^verbatim>\<open>_parse_divisions\<close> at token \<open>i\<close>.\<close>

definition divisions_step :: "Token list \<Rightarrow> nat \<Rightarrow> scopes \<Rightarrow> scopes" where
  "divisions_step ts i st =
     (let token = ts ! i in
      if tok_type token = DIVISION then
        \<lparr>current_division =
           Some \<lparr>division_name = value_upper token, division_start_line = tok_line token,
                 division_end_line = 0, division_sections = Map.empty\<rparr>,
         current_section = None,
         current_paragraph = None,
         program_divisions =
           end_division (current_division st) (current_section st) (current_paragraph st)
             (tok_line token - 1) (program_divisions st),
         program_data_items = program_data_items st\<rparr>
      else if tok_type token = SECTION then
        (if 0 < i \<and> tok_type (ts ! (i - 1)) = IDENTIFIER then
           (case current_division st of
              None \<Rightarrow> st
            | Some d \<Rightarrow>
                st\<lparr>current_division :=
                     Some (end_section (current_section st) (current_paragraph st)
                             (tok_line token - 1) d),
                   current_section :=
                     Some \<lparr>section_name = value_upper (ts ! (i - 1)),
                           section_start_line = tok_line token, section_end_line = 0,
                           section_paragraphs = Map.empty\<rparr>,
                   current_paragraph := None\<rparr>)
         else st)
      else if tok_type token = IDENTIFIER
              \<and> (case current_division st of
                    None \<Rightarrow> False | Some d \<Rightarrow> division_name d = ''PROCEDURE'')
              \<and> (i = 0 \<or> tok_line (ts ! (i - 1)) \<noteq> tok_line token)
              \<and> (i + 1 < length ts \<and> tok_value (ts ! (i + 1)) \<noteq> ''SECTION'') then
        (case current_section st of
           None \<Rightarrow> st
         | Some s \<Rightarrow>
             st\<lparr>current_section :=
                  Some (end_paragraph (current_paragraph st) (tok_line token - 1) s),
                current_paragraph :=
                  Some \<lparr>paragraph_name = value_upper token,
                        paragraph_start_line = tok_line token, paragraph_end_line = 0\<rparr>\<rparr>)
      else if (case current_division st of
                 None \<Rightarrow> False | Some d \<Rightarrow> division_name d = ''DATA'')
              \<and> tok_type token = NUMBER
              \<and> i + 1 < length ts \<and> tok_type (ts ! (i + 1)) = IDENTIFIER then
        (case py_int (tok_value token) of
           None \<Rightarrow> st
         | Some lv \<Rightarrow>
             (let item = item_clauses ts (tok_line token) (i + 2)
                     \<lparr>item_name = value_upper (ts ! (i + 1)), item_level = lv,
                       item_picture = None, item_usage = None, item_value = None,
                       item_redefines = None, item_occurs = None, item_indexed_by = [],
                       item_location = (tok_line token, tok_column token)\<rparr>
              in st\<lparr>program_data_items := (program_data_items st)(item_name item \<mapsto> item)\<rparr>))
      else st)"

function parse_divisions_from :: "Token list \<Rightarrow> nat \<Rightarrow> scopes \<Rightarrow> scopes" where
  "parse_divisions_from ts i st =
     (if i < length ts then parse_divisions_from ts (i + 1) (divisions_step ts i st) else st)"
  by pat_completeness auto
termination
  by (relation "measure (\<lambda>(ts, i, st). length ts - i)") auto

declare parse_divisions_from.simps [simp del]

text \<open>
  \<^verbatim>\<open>_parse_divisions\<close>: the loop from token 0 with no scope open, then the scopes still
  open end at the line of the last token (0 when there is no token).
\<close>

definition parse_divisions ::
  "Token list \<Rightarrow> (string \<rightharpoonup> Division) \<times> (string \<rightharpoonup> DataItem)" where
  "parse_divisions ts =
     (let st = parse_divisions_from ts 0
                 \<lparr>current_division = None, current_section = None, current_paragraph = None,
                   program_divisions = Map.empty, program_data_items = Map.empty\<rparr>;
          e = (if ts = [] then 0 else tok_line (last ts))
      in (end_division (current_division st) (current_section st) (current_paragraph st) e
            (program_divisions st),
          program_data_items st))"

subsection \<open>File references: \<^verbatim>\<open>_extract_file_references\<close>\<close>

text \<open>
  The scan behind \<^verbatim>\<open>SELECT name\<close>, from index \<open>j\<close>: the access mode (a string), the
  organization and the record key (\<open>None\<close> until a clause sets them). It stops before
  the next \<^verbatim>\<open>SELECT\<close>, at the end of the tokens, and when the token after the one just
  read is a full stop.
\<close>

function select_clauses ::
  "Token list \<Rightarrow> nat \<Rightarrow> string \<times> string option \<times> string option
    \<Rightarrow> string \<times> string option \<times> string option" where
  "select_clauses ts j acc =
     (if j < length ts \<and> value_upper (ts ! j) \<noteq> ''SELECT'' then
        (let acc' =
           (case acc of (mode, org, key) \<Rightarrow>
              if value_upper (ts ! j) = ''ORGANIZATION'' \<and> j + 1 < length ts then
                (mode, Some (value_upper (ts ! (j + 1))), key)
              else if value_upper (ts ! j) = ''ACCESS'' \<and> j + 1 < length ts
                      \<and> value_upper (ts ! (j + 1)) = ''MODE'' \<and> j + 2 < length ts then
                (value_upper (ts ! (j + 2)), org, key)
              else if value_upper (ts ! j) = ''RECORD'' \<and> j + 1 < length ts
                      \<and> value_upper (ts ! (j + 1)) = ''KEY'' \<and> j + 2 < length ts then
                (mode, org, Some (value_upper (ts ! (j + 2))))
              else (mode, org, key))
         in if length ts \<le> j + 1 \<or> value_upper (ts ! (j + 1)) = ''.'' then acc'
            else select_clauses ts (j + 1) acc')
      else acc)"
  by pat_completeness auto
termination
  by (relation "measure (\<lambda>(ts, j, acc). length ts - j)") auto

declare select_clauses.simps [simp del]

text \<open>The first loop: one FileReference for each \<^verbatim>\<open>SELECT\<close> keyword before an identifier.\<close>

function select_files_from :: "Token list \<Rightarrow> nat \<Rightarrow> FileReference list \<Rightarrow> FileReference list" where
  "select_files_from ts i fs =
     (if i < length ts then
        select_files_from ts (i + 1)
          (if tok_type (ts ! i) = KEYWORD \<and> value_upper (ts ! i) = ''SELECT''
              \<and> i + 1 < length ts \<and> tok_type (ts ! (i + 1)) = IDENTIFIER then
             (case select_clauses ts (i + 2) (''SEQUENTIAL'', None, None) of
                (mode, org, key) \<Rightarrow>
                  fs @ [\<lparr>file_name = value_upper (ts ! (i + 1)), file_access_mode = mode,
                          file_organization = org, file_record_key = key,
                          file_location = (tok_line (ts ! i), tok_column (ts ! i))\<rparr>])
           else fs)
      else fs)"
  by pat_completeness auto
termination
  by (relation "measure (\<lambda>(ts, i, fs). length ts - i)") auto

declare select_files_from.simps [simp del]

text \<open>
  The second loop. In the source the test for an I/O verb at token \<open>i\<close> guards one
  statement only, the assignment of the local variable \<^verbatim>\<open>operation\<close>, which nothing
  reads; the look-ahead that follows stands beside that test, not under it, and runs
  for every \<open>i\<close>. \<open>line_files ts i j fs\<close> is that look-ahead from index \<open>j\<close>: every
  identifier on the line of token \<open>i\<close> whose upper-case name no entry of \<open>fs\<close> has is
  added with the access mode \<^verbatim>\<open>UNKNOWN\<close> and the position of token \<open>i\<close>.
\<close>

definition io_verbs :: "string list" where
  "io_verbs = [''OPEN'', ''CLOSE'', ''READ'', ''WRITE'', ''REWRITE'', ''DELETE'', ''START'']"

function line_files :: "Token list \<Rightarrow> nat \<Rightarrow> nat \<Rightarrow> FileReference list \<Rightarrow> FileReference list" where
  "line_files ts i j fs =
     (if j < length ts \<and> tok_line (ts ! j) = tok_line (ts ! i) then
        line_files ts i (j + 1)
          (if tok_type (ts ! j) = IDENTIFIER
              \<and> \<not> list_ex (\<lambda>file_ref. file_name file_ref = value_upper (ts ! j)) fs then
             fs @ [\<lparr>file_name = value_upper (ts ! j), file_access_mode = ''UNKNOWN'',
                     file_organization = None, file_record_key = None,
                     file_location = (tok_line (ts ! i), tok_column (ts ! i))\<rparr>]
           else fs)
      else fs)"
  by pat_completeness auto
termination
  by (relation "measure (\<lambda>(ts, i, j, fs). length ts - j)") auto

declare line_files.simps [simp del]

function io_files_from :: "Token list \<Rightarrow> nat \<Rightarrow> FileReference list \<Rightarrow> FileReference list" where
  "io_files_from ts i fs =
     (if i < length ts then io_files_from ts (i + 1) (line_files ts i (i + 1) fs) else fs)"
  by pat_completeness auto
termination
  by (relation "measure (\<lambda>(ts, i, fs). length ts - i)") auto

declare io_files_from.simps [simp del]

definition extract_file_references :: "Token list \<Rightarrow> FileReference list" where
  "extract_file_references ts = io_files_from ts 0 (select_files_from ts 0 [])"

subsection \<open>Program calls: \<^verbatim>\<open>_extract_program_calls\<close>\<close>

text \<open>The parameters behind \<^verbatim>\<open>USING\<close> on the line of the \<^verbatim>\<open>CALL\<close> at index \<open>i\<close>.\<close>

function call_parameters_from ::
  "Token list \<Rightarrow> nat \<Rightarrow> nat \<Rightarrow> bool \<Rightarrow> string list \<Rightarrow> string list" where
  "call_parameters_from ts i j using_found ps =
     (if j < length ts \<and> tok_line (ts ! j) = tok_line (ts ! i) then
        (if tok_type (ts ! j) = KEYWORD \<and> value_upper (ts ! j) = ''USING'' then
           call_parameters_from ts i (j + 1) True ps
         else
           call_parameters_from ts i (j + 1) using_found
             (if using_found \<and> tok_type (ts ! j) = IDENTIFIER then ps @ [value_upper (ts ! j)]
              else ps))
      else ps)"
  by pat_completeness auto
termination
  by (relation "measure (\<lambda>(ts, i, j, using_found, ps). length ts - j)") auto

declare call_parameters_from.simps [simp del]

text \<open>
  A literal behind \<^verbatim>\<open>CALL\<close> is the target as it stands, an identifier is the target in
  upper case and makes the call dynamic; a call whose target is \<open>None\<close> or empty is
  dropped.
\<close>

function program_calls_from :: "Token list \<Rightarrow> nat \<Rightarrow> ProgramCall list \<Rightarrow> ProgramCall list" where
  "program_calls_from ts i cs =
     (if i < length ts then
        program_calls_from ts (i + 1)
          (if tok_type (ts ! i) = KEYWORD \<and> value_upper (ts ! i) = ''CALL'' then
             (let tgt = (if i + 1 < length ts then
                           (if tok_type (ts ! (i + 1)) = LITERAL then
                              Some (tok_value (ts ! (i + 1)))
                            else if tok_type (ts ! (i + 1)) = IDENTIFIER then
                              Some (value_upper (ts ! (i + 1)))
                            else None)
                         else None);
                  dynamic = (i + 1 < length ts \<and> tok_type (ts ! (i + 1)) \<noteq> LITERAL
                              \<and> tok_type (ts ! (i + 1)) = IDENTIFIER);
                  ps = call_parameters_from ts i (i + 2) False []
              in case tgt of
                   None \<Rightarrow> cs
                 | Some t \<Rightarrow>
                     if t = [] then cs
                     else cs @ [\<lparr>call_target = t, call_is_dynamic = dynamic,
                                  call_parameters = ps,
                                  call_location = (tok_line (ts ! i), tok_column (ts ! i))\<rparr>])
           else cs)
      else cs)"
  by pat_completeness auto
termination
  by (relation "measure (\<lambda>(ts, i, cs). length ts - i)") auto

declare program_calls_from.simps [simp del]

definition extract_program_calls :: "Token list \<Rightarrow> ProgramCall list" where
  "extract_program_calls ts = program_calls_from ts 0 []"

subsection \<open>Embedded resources: \<^verbatim>\<open>_extract_resources\<close>\<close>

text \<open>
  The scan of a block from index \<open>j\<close> up to the token \<^verbatim>\<open>END-EXEC\<close> or the end of the
  tokens. The source writes this loop three times, for SQL, CICS and MQ, with the
  words that announce a name as the only difference; here they are the argument
  \<open>words\<close>. The pair is \<^verbatim>\<open>operation\<close> and \<^verbatim>\<open>resource_name\<close>: the first keyword sets the
  operation, and every keyword among \<open>words\<close> with a token behind it sets the name.
\<close>

function block_scan ::
  "string list \<Rightarrow> Token list \<Rightarrow> nat \<Rightarrow> string option \<times> string option
    \<Rightarrow> string option \<times> string option" where
  "block_scan words ts j acc =
     (if j < length ts \<and> value_upper (ts ! j) \<noteq> ''END-EXEC'' then
        block_scan words ts (j + 1)
          (if tok_type (ts ! j) = KEYWORD then
             (case fst acc of None \<Rightarrow> Some (value_upper (ts ! j)) | Some op \<Rightarrow> Some op,
              if value_upper (ts ! j) \<in> set words \<and> j + 1 < length ts
              then Some (value_upper (ts ! (j + 1))) else snd acc)
           else acc)
      else acc)"
  by pat_completeness auto
termination
  by (relation "measure (\<lambda>(words, ts, j, acc). length ts - j)") auto

declare block_scan.simps [simp del]

text \<open>The loop that moves \<open>i\<close> to the next \<^verbatim>\<open>END-EXEC\<close>, or to the end of the tokens.\<close>

function skip_to_end_exec :: "Token list \<Rightarrow> nat \<Rightarrow> nat" where
  "skip_to_end_exec ts i =
     (if i < length ts \<and> value_upper (ts ! i) \<noteq> ''END-EXEC''
      then skip_to_end_exec ts (i + 1) else i)"
  by pat_completeness auto
termination
  by (relation "measure (\<lambda>(ts, i). length ts - i)") auto

declare skip_to_end_exec.simps [simp del]

lemma skip_to_end_exec_ge: "i \<le> skip_to_end_exec ts i"
proof (induction ts i rule: skip_to_end_exec.induct)
  case (1 ts i)
  then show ?case
    by (subst skip_to_end_exec.simps) (auto simp: Suc_leD)
qed

text \<open>
  The outer loop. A Resource is appended when the type and the operation are both
  non-empty strings; a name that is \<open>None\<close> or empty becomes \<^verbatim>\<open>UNKNOWN\<close>.
\<close>

function extract_resources_from :: "Token list \<Rightarrow> nat \<Rightarrow> Resource list \<Rightarrow> Resource list" where
  "extract_resources_from ts i rs =
     (if i < length ts then
        (if tok_type (ts ! i) = KEYWORD \<and> value_upper (ts ! i) = ''EXEC''
            \<and> i + 1 < length ts then
           (let rtype = value_upper (ts ! (i + 1));
                found =
                  (if rtype = ''SQL'' then
                     block_scan [''FROM'', ''INTO'', ''UPDATE'', ''TABLE''] ts (i + 2) (None, None)
                   else if rtype = ''CICS'' then
                     block_scan [''PROGRAM'', ''TRANSID'', ''QUEUE'', ''FILE''] ts (i + 2)
                       (None, None)
                   else if rtype = ''MQ'' then
                     block_scan [''QNAME'', ''QUEUE''] ts (i + 2) (None, None)
                   else (None, None));
                rs' =
                  (case fst found of
                     None \<Rightarrow> rs
                   | Some op \<Rightarrow>
                       if rtype \<noteq> [] \<and> op \<noteq> [] then
                         rs @ [\<lparr>resource_name =
                                   (case snd found of
                                      None \<Rightarrow> ''UNKNOWN''
                                    | Some n \<Rightarrow> if n = [] then ''UNKNOWN'' else n),
                                 resource_type = rtype, resource_operation = op,
                                 resource_location = (tok_line (ts ! i), tok_column (ts ! i))\<rparr>]
                       else rs)
            in extract_resources_from ts (skip_to_end_exec ts i + 1) rs')
         else extract_resources_from ts (i + 1) rs)
      else rs)"
  by pat_completeness auto
termination
proof (relation "measure (\<lambda>(ts, i, rs). length ts - i)")
  show "wf (measure (\<lambda>(ts, i, rs). length ts - i))"
    by simp
next
  fix ts :: "Token list" and i :: nat and rs x xa xb
  assume "i < length ts"
  then show "((ts, skip_to_end_exec ts i + 1, xb), ts, i, rs)
      \<in> measure (\<lambda>(ts, i, rs). length ts - i)"
    using skip_to_end_exec_ge [of i ts] by simp
next
  fix ts :: "Token list" and i :: nat and rs :: "Resource list"
  assume "i < length ts"
  then show "((ts, i + 1, rs), ts, i, rs) \<in> measure (\<lambda>(ts, i, rs). length ts - i)"
    by simp
qed

declare extract_resources_from.simps [simp del]

definition extract_resources :: "Token list \<Rightarrow> Resource list" where
  "extract_resources ts = extract_resources_from ts 0 []"

subsection \<open>Copybooks and maps: \<^verbatim>\<open>_extract_copybooks\<close>, \<^verbatim>\<open>_extract_maps\<close>\<close>

function copybooks_from :: "Token list \<Rightarrow> nat \<Rightarrow> string set \<Rightarrow> string set" where
  "copybooks_from ts i cb =
     (if i < length ts then
        copybooks_from ts (i + 1)
          (if tok_type (ts ! i) = KEYWORD \<and> value_upper (ts ! i) = ''COPY''
              \<and> i + 1 < length ts \<and> tok_type (ts ! (i + 1)) \<in> set [IDENTIFIER, LITERAL]
           then insert (value_upper (ts ! (i + 1))) cb else cb)
      else cb)"
  by pat_completeness auto
termination
  by (relation "measure (\<lambda>(ts, i, cb). length ts - i)") auto

declare copybooks_from.simps [simp del]

definition extract_copybooks :: "Token list \<Rightarrow> string set" where
  "extract_copybooks ts = copybooks_from ts 0 {}"

text \<open>
  The scan of a CICS block for \<^verbatim>\<open>SEND MAP name\<close> and \<^verbatim>\<open>RECEIVE MAP name\<close>, by the
  values of the tokens alone: the set of map names and the flag \<^verbatim>\<open>map_found\<close>.
\<close>

function cics_maps :: "Token list \<Rightarrow> nat \<Rightarrow> string set \<times> bool \<Rightarrow> string set \<times> bool" where
  "cics_maps ts j acc =
     (if j < length ts \<and> value_upper (ts ! j) \<noteq> ''END-EXEC'' then
        cics_maps ts (j + 1)
          (if value_upper (ts ! j) \<in> set [''SEND'', ''RECEIVE''] \<and> j + 1 < length ts
              \<and> value_upper (ts ! (j + 1)) = ''MAP'' \<and> j + 2 < length ts
           then (insert (value_upper (ts ! (j + 2))) (fst acc), True) else acc)
      else acc)"
  by pat_completeness auto
termination
  by (relation "measure (\<lambda>(ts, j, acc). length ts - j)") auto

declare cics_maps.simps [simp del]

text \<open>
  The outer loop: outside a block the words \<^verbatim>\<open>SEND\<close> or \<^verbatim>\<open>RECEIVE\<close> and \<^verbatim>\<open>MAP\<close> must
  both be tokens of type keyword; at \<^verbatim>\<open>EXEC CICS\<close> the block is scanned, and \<open>i\<close> moves
  to its \<^verbatim>\<open>END-EXEC\<close> when a map was found in it.
\<close>

function extract_maps_from :: "Token list \<Rightarrow> nat \<Rightarrow> string set \<Rightarrow> string set" where
  "extract_maps_from ts i ms =
     (if i < length ts then
        (if tok_type (ts ! i) = KEYWORD \<and> value_upper (ts ! i) \<in> set [''SEND'', ''RECEIVE'']
            \<and> i + 1 < length ts \<and> tok_type (ts ! (i + 1)) = KEYWORD
            \<and> value_upper (ts ! (i + 1)) = ''MAP'' \<and> i + 2 < length ts then
           extract_maps_from ts (i + 1) (insert (value_upper (ts ! (i + 2))) ms)
         else if tok_type (ts ! i) = KEYWORD \<and> value_upper (ts ! i) = ''EXEC''
                 \<and> i + 1 < length ts \<and> value_upper (ts ! (i + 1)) = ''CICS'' then
           (case cics_maps ts (i + 2) (ms, False) of
              (ms', map_found) \<Rightarrow>
                extract_maps_from ts ((if map_found then skip_to_end_exec ts i else i) + 1) ms')
         else extract_maps_from ts (i + 1) ms)
      else ms)"
  by pat_completeness auto
termination
proof (relation "measure (\<lambda>(ts, i, ms). length ts - i)")
  show "wf (measure (\<lambda>(ts, i, ms). length ts - i))"
    by simp
next
  fix ts :: "Token list" and i :: nat and ms :: "string set"
  assume "i < length ts"
  then show "((ts, i + 1, insert (value_upper (ts ! (i + 2))) ms), ts, i, ms)
      \<in> measure (\<lambda>(ts, i, ms). length ts - i)"
    by simp
next
  fix ts :: "Token list" and i :: nat and ms x :: "string set" and y :: bool
  assume "i < length ts"
  then show "((ts, (if y then skip_to_end_exec ts i else i) + 1, x), ts, i, ms)
      \<in> measure (\<lambda>(ts, i, ms). length ts - i)"
    using skip_to_end_exec_ge [of i ts] by (cases y) auto
next
  fix ts :: "Token list" and i :: nat and ms :: "string set"
  assume "i < length ts"
  then show "((ts, i + 1, ms), ts, i, ms) \<in> measure (\<lambda>(ts, i, ms). length ts - i)"
    by simp
qed

declare extract_maps_from.simps [simp del]

definition extract_maps :: "Token list \<Rightarrow> string set" where
  "extract_maps ts = extract_maps_from ts 0 {}"

subsection \<open>\<^verbatim>\<open>parse\<close>\<close>

text \<open>
  The name of a program is \<^verbatim>\<open>os.path.splitext(os.path.basename(source_path))[0]\<close>, read
  with the POSIX rules: the base name is what follows the last slash, and the
  extension starts at its last dot, unless only dots stand before that dot.
\<close>

definition basename :: "string \<Rightarrow> string" where
  "basename p = rev (takeWhile (\<lambda>c. c \<noteq> CHR ''/'') (rev p))"

definition splitext_root :: "string \<Rightarrow> string" where
  "splitext_root b =
     (case dropWhile (\<lambda>c. c \<noteq> CHR ''.'') (rev b) of
        [] \<Rightarrow> b
      | dot # stem \<Rightarrow> if list_ex (\<lambda>c. c \<noteq> CHR ''.'') stem then rev stem else b)"

text \<open>
  \<^verbatim>\<open>_parse_program\<close> on the tokens of the text: the program object is new, and each
  pass fills fields of its own.
\<close>

definition parse_source :: "string \<Rightarrow> string \<Rightarrow> CobolProgram" where
  "parse_source path source_code =
     (let ts = tokenize source_code;
          scope_tree = parse_divisions ts
      in \<lparr>program_name = splitext_root (basename path), source_path = path,
          divisions = fst scope_tree, data_items = snd scope_tree,
          files = extract_file_references ts, calls = extract_program_calls ts,
          resources = extract_resources ts, called_by = {},
          maps_used = extract_maps ts, copybooks = extract_copybooks ts\<rparr>)"

text \<open>
  Reading the file is the only step of \<^verbatim>\<open>parse\<close> that can raise, and the exception is
  raised again. The file system is a map from a path to the decoded text of the file
  there; no entry means that \<^verbatim>\<open>open\<close> or \<^verbatim>\<open>read\<close> fails.
\<close>

datatype io_error = ReadError

definition parse :: "(string \<rightharpoonup> string) \<Rightarrow> string \<Rightarrow> io_error + CobolProgram" where
  "parse fs path =
     (case fs path of
        None \<Rightarrow> Inl ReadError
      | Some source_code \<Rightarrow> Inr (parse_source path source_code))"

section \<open>The analyzer (CobolAnalyzer.py)\<close>

record CobolAnalyzer =
  analyzed_programs :: "string \<rightharpoonup> CobolProgram"
  call_graph :: "string \<rightharpoonup> string set"
  resource_usage :: "string \<rightharpoonup> string set"

definition new_analyzer :: CobolAnalyzer where
  "new_analyzer =
     \<lparr>analyzed_programs = Map.empty, call_graph = Map.empty, resource_usage = Map.empty\<rparr>"

text \<open>
  The loop over \<^verbatim>\<open>program.calls\<close>: the target goes into the set stored for the caller
  \<open>name\<close>, and a target without an entry gets the empty set. \<^verbatim>\<open>analyze_program\<close> stores
  a set for \<open>name\<close> right before the loop and no step removes an entry, so the set for
  \<open>name\<close> is always there (lemma \<open>add_calls_keeps_caller\<close> below).
\<close>

fun add_calls :: "string \<Rightarrow> ProgramCall list \<Rightarrow> (string \<rightharpoonup> string set) \<Rightarrow> (string \<rightharpoonup> string set)" where
  "add_calls name [] g = g"
| "add_calls name (c # cs) g =
     (let g1 = g(name \<mapsto> insert (call_target c) (the (g name)));
          g2 = (case g1 (call_target c) of
                  None \<Rightarrow> g1(call_target c \<mapsto> {})
                | Some callees \<Rightarrow> g1)
      in add_calls name cs g2)"

text \<open>
  The loop over \<^verbatim>\<open>program.resources\<close>: the key is the type, a colon and the name; a new
  key starts with the empty set, and the program name goes into the set of the key.
\<close>

fun add_resources :: "string \<Rightarrow> Resource list \<Rightarrow> (string \<rightharpoonup> string set) \<Rightarrow> (string \<rightharpoonup> string set)" where
  "add_resources name [] u = u"
| "add_resources name (r # rs) u =
     (let resource_key = resource_type r @ '':'' @ resource_name r;
          users = (case u resource_key of None \<Rightarrow> {} | Some programs \<Rightarrow> programs)
      in add_resources name rs (u(resource_key \<mapsto> insert name users)))"

text \<open>What \<^verbatim>\<open>analyze_program\<close> does with the program that \<^verbatim>\<open>parse\<close> returned.\<close>

definition register :: "CobolProgram \<Rightarrow> CobolAnalyzer \<Rightarrow> CobolAnalyzer" where
  "register program st =
     \<lparr>analyzed_programs = (analyzed_programs st)(program_name program \<mapsto> program),
      call_graph =
        add_calls (program_name program) (calls program)
          ((call_graph st)(program_name program \<mapsto> {})),
      resource_usage =
        add_resources (program_name program) (resources program) (resource_usage st)\<rparr>"

text \<open>
  \<^verbatim>\<open>analyze_program\<close>: the program and the analyzer after the call, or the error of
  \<^verbatim>\<open>parse\<close>, raised before anything is stored.
\<close>

definition analyze_program ::
  "(string \<rightharpoonup> string) \<Rightarrow> string \<Rightarrow> CobolAnalyzer \<Rightarrow> io_error + CobolProgram \<times> CobolAnalyzer" where
  "analyze_program fs program_path st =
     (case parse fs program_path of
        Inl e \<Rightarrow> Inl e
      | Inr program \<Rightarrow> Inr (program, register program st))"

text \<open>
  A sequence of calls of \<^verbatim>\<open>analyze_program\<close> on one analyzer. Each call comes with the
  file system of its moment, so a file may change between two calls; a call that
  raises leaves the analyzer as it was.
\<close>

fun analyze_sequence ::
  "((string \<rightharpoonup> string) \<times> string) list \<Rightarrow> CobolAnalyzer \<Rightarrow> CobolAnalyzer" where
  "analyze_sequence [] st = st"
| "analyze_sequence ((fs, program_path) # rest) st =
     (case analyze_program fs program_path st of
        Inl e \<Rightarrow> analyze_sequence rest st
      | Inr (program, st') \<Rightarrow> analyze_sequence rest st')"

text \<open>The two queries on the call graph.\<close>

definition find_caller_programs :: "CobolAnalyzer \<Rightarrow> string \<Rightarrow> string set" where
  "find_caller_programs st name =
     {caller. case call_graph st caller of None \<Rightarrow> False | Some callees \<Rightarrow> name \<in> callees}"

definition find_called_programs :: "CobolAnalyzer \<Rightarrow> string \<Rightarrow> string set" where
  "find_called_programs st name =
     (case call_graph st name of Some callees \<Rightarrow> callees | None \<Rightarrow> {})"

section \<open>Words for the statements\<close>

text \<open>The targets of the calls of a program, as a set.\<close>

definition call_targets :: "CobolProgram \<Rightarrow> string set" where
  "call_targets program = call_target ` set (calls program)"

text \<open>
  The programs that a sequence of calls of \<^verbatim>\<open>analyze_program\<close> parses, in order: one for
  each call whose file can be read.
\<close>

definition parsed :: "((string \<rightharpoonup> string) \<times> string) list \<Rightarrow> CobolProgram list" where
  "parsed runs =
     List.map_filter
       (\<lambda>(fs, program_path). case parse fs program_path of Inl e \<Rightarrow> None | Inr program \<Rightarrow> Some program)
       runs"

text \<open>The upper-case value of the first token of type keyword in a token list, if any.\<close>

definition first_keyword :: "Token list \<Rightarrow> string option" where
  "first_keyword ts =
     (case filter (\<lambda>t. tok_type t = KEYWORD) ts of [] \<Rightarrow> None | t # rest \<Rightarrow> Some (value_upper t))"

text \<open>
  The state of the scope pass has no section: none is open, and neither the open
  division nor a division stored in the program has one.
\<close>

definition no_sections :: "scopes \<Rightarrow> bool" where
  "no_sections st =
     (current_section st = None
      \<and> (case current_division st of None \<Rightarrow> True | Some d \<Rightarrow> division_sections d = Map.empty)
      \<and> (\<forall>n d. program_divisions st n = Some d \<longrightarrow> division_sections d = Map.empty))"

text \<open>A source line that calls the program \<open>name\<close> by a literal, the code from column 8.\<close>

definition call_source :: "string \<Rightarrow> string" where
  "call_source name = ''       CALL '' @ [DQUOTE] @ name @ [DQUOTE]"

text \<open>A first version of a program: a call of BILLING and a complete SQL block.\<close>

definition pay_source :: string where
  "pay_source =
     call_source ''BILLING'' @ [LF] @ ''       EXEC SQL SELECT NAME FROM CUSTOMER END-EXEC''"

text \<open>
  A file system with three programs, and the same after the third has been edited: its
  second version calls ORDERPROC and has no SQL block.
\<close>

definition example_files :: "string \<rightharpoonup> string" where
  "example_files =
     [''ORDERPROC.cbl'' \<mapsto> call_source ''BILLING'',
      ''BILLING.cbl'' \<mapsto> call_source ''ORDERPROC'',
      ''src/PAY.cbl'' \<mapsto> pay_source]"

definition edited_files :: "string \<rightharpoonup> string" where
  "edited_files = example_files(''src/PAY.cbl'' \<mapsto> call_source ''ORDERPROC'')"

text \<open>The four programs that \<^verbatim>\<open>parse\<close> returns for those files.\<close>

definition orderproc_program :: CobolProgram where
  "orderproc_program = parse_source ''ORDERPROC.cbl'' (call_source ''BILLING'')"

definition billing_program :: CobolProgram where
  "billing_program = parse_source ''BILLING.cbl'' (call_source ''ORDERPROC'')"

definition pay_first :: CobolProgram where
  "pay_first = parse_source ''src/PAY.cbl'' pay_source"

definition pay_second :: CobolProgram where
  "pay_second = parse_source ''src/PAY.cbl'' (call_source ''ORDERPROC'')"

section \<open>Properties of the tokenizer\<close>

subsection \<open>Every step moves on, within the line\<close>

lemma match_whitespace_len: "match_whitespace s = Some n \<Longrightarrow> 0 < n \<and> n \<le> length s"
  by (auto simp: match_whitespace_def Let_def length_takeWhile_le split: if_splits)

lemma match_comment_len: "match_comment s = Some t \<Longrightarrow> 0 < length t \<and> length t \<le> length s"
  by (auto simp: match_comment_def Let_def length_takeWhile_le split: list.splits if_splits)

lemma match_string_literal_len: "match_string_literal s = Some t \<Longrightarrow> length t + 2 \<le> length s"
proof -
  assume a: "match_string_literal s = Some t"
  then obtain cs where s: "s = DQUOTE # cs" and q: "DQUOTE \<in> set cs"
    and t: "t = takeWhile (\<lambda>x. x \<noteq> DQUOTE) cs"
    by (auto simp: match_string_literal_def split: list.splits if_splits)
  from q have "length (takeWhile (\<lambda>x. x \<noteq> DQUOTE) cs) < length cs"
    by (induction cs) auto
  with s t show ?thesis by simp
qed

lemma match_number_len: "match_number s = Some t \<Longrightarrow> 0 < length t \<and> length t \<le> length s"
proof -
  assume a: "match_number s = Some t"
  define ds where "ds = takeWhile is_digit s"
  define rs where "rs = dropWhile is_digit s"
  have split: "length ds + length rs = length s"
    unfolding ds_def rs_def by (metis length_append takeWhile_dropWhile_id)
  from a have b: "ds \<noteq> []" and
    c: "(case rs of [] \<Rightarrow> Some ds
         | d # r \<Rightarrow> (let fs = takeWhile is_digit r in
             if d = CHR ''.'' \<and> fs \<noteq> [] then Some (ds @ d # fs) else Some ds)) = Some t"
    unfolding match_number_def ds_def rs_def Let_def by (simp_all split: if_splits)
  show ?thesis
  proof (cases rs)
    case Nil
    with b c split show ?thesis by auto
  next
    case (Cons d r)
    have "length (takeWhile is_digit r) \<le> length r"
      by (rule length_takeWhile_le)
    with b c split Cons show ?thesis
      by (auto simp: Let_def split: if_splits)
  qed
qed

lemma match_identifier_len: "match_identifier s = Some t \<Longrightarrow> 0 < length t \<and> length t \<le> length s"
  by (auto simp: match_identifier_def length_takeWhile_le split: list.splits if_splits)

lemma scan_step_bound: "s \<noteq> [] \<Longrightarrow> snd (scan_step s ln col) \<le> length s"
  unfolding scan_step_def
  by (auto simp: Let_def Suc_le_eq dest: match_whitespace_len match_comment_len match_string_literal_len
      match_number_len match_identifier_len split: option.splits)

lemma tl_len: "length (tokenize_line line position ln col) \<le> length line - position"
proof (induction line position ln col rule: tokenize_line.induct)
  case (1 line position ln col)
  show ?case
  proof (cases "position < length line")
    case False
    then show ?thesis by (simp add: tokenize_line.simps)
  next
    case True
    obtain tok n where st: "scan_step (drop position line) ln col = (tok, n)"
      by (cases "scan_step (drop position line) ln col")
    from True have "0 < snd (scan_step (drop position line) ln col)"
      by (intro scan_step_advances) simp
    with st have n: "0 < n" by simp
    from "1.IH" [OF True st [symmetric]]
    have "length (tokenize_line line (position + n) ln (col + int n)) \<le> length line - (position + n)" .
    with True n st show ?thesis
      by (subst tokenize_line.simps) (auto split: option.split)
  qed
qed


lemma length_rstrip: "length (rstrip s) \<le> length s"
  unfolding rstrip_def by (metis length_dropWhile_le length_rev)

lemma set_rstrip: "set (rstrip s) \<subseteq> set s"
  unfolding rstrip_def by (metis set_dropWhileD set_rev subsetI)

lemma splitlines_from_length:
  "sum_list (map length (splitlines_from cur s)) \<le> length cur + length s"
  by (induction cur s rule: splitlines_from.induct) auto

lemma tokenize_lines_length:
  "length (tokenize_lines ls line_num) \<le> sum_list (map length ls)"
proof (induction ls arbitrary: line_num)
  case Nil
  show ?case by simp
next
  case (Cons line rest)
  have "length (tokenize_line (rstrip (drop 6 line)) 0 line_num 7) \<le> length line"
    using tl_len [of "rstrip (drop 6 line)" 0 line_num 7] length_rstrip [of "drop 6 line"]
    by simp
  with Cons [of "line_num + 1"] show ?case
    by auto
qed

lemma tokenize_length: "length (tokenize source_code) \<le> length source_code"
  unfolding tokenize_def splitlines_def
  using tokenize_lines_length [of "splitlines_from [] source_code" 1]
    splitlines_from_length [of "[]" source_code]
  by simp

lemma is_digit_alnum: "is_digit c \<Longrightarrow> is_alnum c"
  by (auto simp: is_digit_def is_alnum_def)

lemma scan_step_unknown:
  assumes "unrecognized c"
  shows "scan_step (c # cs) ln col =
    (Some \<lparr>tok_type = UNKNOWN, tok_value = [c], tok_line = ln, tok_column = col\<rparr>, 1)"
proof -
  from assms have ws: "match_whitespace (c # cs) = None"
    by (simp add: match_whitespace_def unrecognized_def)
  from assms have "c \<noteq> CHR ''*''" "c \<noteq> CHR ''/''"
    by (auto simp: unrecognized_def is_operator_def)
  then have cm: "match_comment (c # cs) = None"
    by (simp add: match_comment_def)
  from assms have sl: "match_string_literal (c # cs) = None"
    by (simp add: match_string_literal_def unrecognized_def)
  from assms have "\<not> is_digit c"
    using is_digit_alnum by (auto simp: unrecognized_def)
  then have nu: "match_number (c # cs) = None"
    by (simp add: match_number_def)
  from assms have idn: "match_identifier (c # cs) = None"
    by (simp add: match_identifier_def unrecognized_def)
  from assms ws cm sl nu idn show ?thesis
    by (simp add: scan_step_def unrecognized_def)
qed


subsection \<open>An asterisk under the scan\<close>

lemma LF_linebreak: "is_linebreak LF"
  by (simp add: is_linebreak_def LF_def)

lemma splitlines_from_no_LF:
  "LF \<notin> set cur \<Longrightarrow> l \<in> set (splitlines_from cur s) \<Longrightarrow> LF \<notin> set l"
proof (induction cur s rule: splitlines_from.induct)
  case (1 cur)
  then show ?case by (auto split: if_splits)
next
  case (2 cur c)
  then show ?case using LF_linebreak by (auto split: if_splits)
next
  case (3 cur c d cs)
  then show ?case using LF_linebreak by (auto split: if_splits)
qed

lemma splitlines_no_LF: "l \<in> set (splitlines s) \<Longrightarrow> LF \<notin> set l"
  unfolding splitlines_def using splitlines_from_no_LF [of "[]" l s] by simp

lemma star_not_space: "\<not> is_space (CHR ''*'')"
  by (simp add: is_space_def)

lemma match_comment_star:
  "LF \<notin> set cs \<Longrightarrow> match_comment (CHR ''*'' # cs) = Some (CHR ''*'' # cs)"
proof -
  assume a: "LF \<notin> set cs"
  then have "takeWhile (\<lambda>x. x \<noteq> LF) cs = cs" and "dropWhile (\<lambda>x. x \<noteq> LF) cs = []"
    by (auto intro: takeWhile_eq_all_conv [THEN iffD2])
  then show ?thesis
    by (simp add: match_comment_def)
qed

lemma scan_step_star:
  "LF \<notin> set cs \<Longrightarrow> scan_step (CHR ''*'' # cs) ln col =
     (Some \<lparr>tok_type = COMMENT, tok_value = CHR ''*'' # cs, tok_line = ln, tok_column = col\<rparr>,
      Suc (length cs))"
  using star_not_space
  by (simp add: scan_step_def match_whitespace_def match_comment_star)

lemma tokenize_line_done: "length line \<le> position \<Longrightarrow> tokenize_line line position ln col = []"
  by (subst tokenize_line.simps) simp

lemma tokenize_line_star:
  assumes "position < length line" and "line ! position = CHR ''*''" and "LF \<notin> set line"
  shows "tokenize_line line position ln col =
    [\<lparr>tok_type = COMMENT, tok_value = drop position line, tok_line = ln, tok_column = col\<rparr>]"
proof -
  from assms(1,2) have d: "drop position line = CHR ''*'' # drop (Suc position) line"
    by (metis Cons_nth_drop_Suc)
  from assms(3) have "LF \<notin> set (drop (Suc position) line)"
    by (meson in_set_dropD)
  then have st: "scan_step (drop position line) ln col =
     (Some \<lparr>tok_type = COMMENT, tok_value = drop position line, tok_line = ln, tok_column = col\<rparr>,
      length line - position)"
    using assms(1) by (simp add: d scan_step_star Suc_diff_Suc)
  show ?thesis
    using assms(1) by (subst tokenize_line.simps) (simp add: st tokenize_line_done)
qed

lemma word_type_not_operator: "word_type x \<noteq> OPERATOR"
  by (simp add: word_type_def Let_def)

lemma scan_step_operator_value:
  assumes "scan_step s ln col = (Some t, n)" and "tok_type t = OPERATOR"
  shows "tok_value t = [hd s] \<and> match_whitespace s = None \<and> match_comment s = None"
  using assms unfolding scan_step_def
  by (auto simp: Let_def word_type_not_operator split: option.splits if_splits)

lemma scan_step_operator:
  assumes "scan_step (c # cs) ln col = (Some t, n)" and "tok_type t = OPERATOR"
    and "LF \<notin> set cs"
  shows "tok_value t \<noteq> ''*''"
proof
  assume "tok_value t = ''*''"
  with scan_step_operator_value [OF assms(1,2)]
  have "c = CHR ''*''" and "match_comment (c # cs) = None"
    by simp_all
  with match_comment_star [OF assms(3)] show False
    by simp
qed

lemma tokenize_line_no_star:
  "LF \<notin> set line \<Longrightarrow> t \<in> set (tokenize_line line position ln col) \<Longrightarrow>
     tok_type t = OPERATOR \<Longrightarrow> tok_value t \<noteq> ''*''"
proof (induction line position ln col rule: tokenize_line.induct)
  case (1 line position ln col)
  show ?case
  proof (cases "position < length line")
    case False
    with "1.prems" show ?thesis by (simp add: tokenize_line.simps)
  next
    case True
    obtain tok n where st: "scan_step (drop position line) ln col = (tok, n)"
      by (cases "scan_step (drop position line) ln col")
    from True have d: "drop position line = line ! position # drop (Suc position) line"
      by (metis Cons_nth_drop_Suc)
    from "1.prems"(1) have nolf: "LF \<notin> set (drop (Suc position) line)"
      by (meson in_set_dropD)
    from "1.prems"(2) True st
    have "t \<in> set (case tok of None \<Rightarrow> [] | Some u \<Rightarrow> [u])
        \<or> t \<in> set (tokenize_line line (position + n) ln (col + int n))"
      by (subst (asm) tokenize_line.simps) simp
    then show ?thesis
    proof
      assume "t \<in> set (case tok of None \<Rightarrow> [] | Some u \<Rightarrow> [u])"
      then have "tok = Some t"
        by (cases tok) auto
      with st d have "scan_step (line ! position # drop (Suc position) line) ln col = (Some t, n)"
        by simp
      from scan_step_operator [OF this "1.prems"(3) nolf] show ?thesis .
    next
      assume "t \<in> set (tokenize_line line (position + n) ln (col + int n))"
      from "1.IH" [OF True st [symmetric] "1.prems"(1) this "1.prems"(3)] show ?thesis .
    qed
  qed
qed

lemma tokenize_lines_no_star:
  "\<forall>l \<in> set ls. LF \<notin> set l \<Longrightarrow> t \<in> set (tokenize_lines ls line_num) \<Longrightarrow>
     tok_type t = OPERATOR \<Longrightarrow> tok_value t \<noteq> ''*''"
proof (induction ls arbitrary: line_num)
  case Nil
  then show ?case by simp
next
  case (Cons line rest)
  from Cons.prems(1) have "LF \<notin> set (rstrip (drop 6 line))"
    using set_rstrip [of "drop 6 line"] by (auto dest: in_set_dropD)
  from tokenize_line_no_star [OF this _ Cons.prems(3)] Cons.IH [OF _ _ Cons.prems(3)] Cons.prems(1,2,3)
  show ?case
    by (auto split: if_splits)
qed

lemma tokenize_no_star:
  "\<lparr>tok_type = OPERATOR, tok_value = ''*'', tok_line = l, tok_column = c\<rparr> \<notin> set (tokenize source_code)"
  unfolding tokenize_def
  using tokenize_lines_no_star [of "splitlines source_code"
      "\<lparr>tok_type = OPERATOR, tok_value = ''*'', tok_line = l, tok_column = c\<rparr>" 1]
    splitlines_no_LF [of _ source_code]
  by auto

subsection \<open>The scan always ends\<close>

text \<open>
  Claim C10. \<open>tokenize\<close> is total: it is defined by recursion over the lines and, in a
  line, by a recursion whose termination proof is that every iteration moves the scan
  position forward. For every text the token list is finite, with at most one token for
  each character of the text; an iteration at a position inside the line moves the
  position forward by at least one and never past the end of the line; and at a
  character that starts no pattern the iteration appends exactly one Unknown token,
  holding that character, and moves on by one.
\<close>

theorem tokenize_total:
  "length (tokenize source_code) \<le> length source_code
   \<and> (position < length line \<longrightarrow>
        position < position + snd (scan_step (drop position line) ln col)
        \<and> position + snd (scan_step (drop position line) ln col) \<le> length line)
   \<and> (position < length line \<and> unrecognized (line ! position) \<longrightarrow>
        tokenize_line line position ln col =
          \<lparr>tok_type = UNKNOWN, tok_value = [line ! position], tok_line = ln, tok_column = col\<rparr>
            # tokenize_line line (position + 1) ln (col + 1))"
proof (intro conjI impI)
  show "length (tokenize source_code) \<le> length source_code"
    by (rule tokenize_length)
next
  assume less: "position < length line"
  then have ne: "drop position line \<noteq> []"
    by simp
  from scan_step_advances [OF ne]
  show "position < position + snd (scan_step (drop position line) ln col)"
    by simp
  from scan_step_bound [OF ne, of ln col] less
  show "position + snd (scan_step (drop position line) ln col) \<le> length line"
    by simp
next
  assume a: "position < length line \<and> unrecognized (line ! position)"
  then have d: "drop position line = line ! position # drop (Suc position) line"
    by (metis Cons_nth_drop_Suc)
  from a show "tokenize_line line position ln col =
          \<lparr>tok_type = UNKNOWN, tok_value = [line ! position], tok_line = ln, tok_column = col\<rparr>
            # tokenize_line line (position + 1) ln (col + 1)"
    by (subst tokenize_line.simps) (simp add: d scan_step_unknown)
qed

text \<open>The theorem at the line \<^verbatim>\<open>$A\<close>, scanned from its first character.\<close>

theorem tokenize_total_witness:
  "(0::nat) < length ''$A'' \<and> unrecognized (''$A'' ! 0)
   \<and> snd (scan_step (drop 0 ''$A'') 1 7) = 1
   \<and> tokenize_line ''$A'' 0 1 7 =
       [\<lparr>tok_type = UNKNOWN, tok_value = ''$'', tok_line = 1, tok_column = 7\<rparr>,
        \<lparr>tok_type = IDENTIFIER, tok_value = ''A'', tok_line = 1, tok_column = 8\<rparr>]"
proof -
  have h1: "(0::nat) < length ''$A''"
    by simp
  have h2: "unrecognized (''$A'' ! 0)"
    by code_simp
  have h3: "snd (scan_step (drop 0 ''$A'') 1 7) = 1"
    by code_simp
  have h4: "tokenize_line ''$A'' (0 + 1) 1 (7 + 1) =
      [\<lparr>tok_type = IDENTIFIER, tok_value = ''A'', tok_line = 1, tok_column = 8\<rparr>]"
    by code_simp
  from tokenize_total [of "''$A''" 0 "''$A''" 1 7] h1 h2
  have "tokenize_line ''$A'' 0 1 7 =
      \<lparr>tok_type = UNKNOWN, tok_value = [''$A'' ! 0], tok_line = 1, tok_column = 7\<rparr>
        # tokenize_line ''$A'' (0 + 1) 1 (7 + 1)"
    by blast
  with h1 h2 h3 h4 show ?thesis
    by simp
qed

subsection \<open>An asterisk is never an operator\<close>

text \<open>
  Claim C9. When the scan of the code area of a source line (the line from column 7 on,
  without its trailing white space) stands at an asterisk, it appends one Comment token
  whose text is the rest of the line from that asterisk on, and the line is finished.
  So no text gives an Operator token with the value \<^verbatim>\<open>*\<close>, at any line and column.
\<close>

theorem asterisk_starts_comment:
  "(line \<in> set (splitlines source_code) \<and> position < length (rstrip (drop 6 line))
      \<and> rstrip (drop 6 line) ! position = CHR ''*'' \<longrightarrow>
    tokenize_line (rstrip (drop 6 line)) position ln col =
      [\<lparr>tok_type = COMMENT, tok_value = drop position (rstrip (drop 6 line)), tok_line = ln,
        tok_column = col\<rparr>])
   \<and> \<lparr>tok_type = OPERATOR, tok_value = ''*'', tok_line = l, tok_column = c\<rparr>
        \<notin> set (tokenize source_code)"
proof (intro conjI impI)
  assume a: "line \<in> set (splitlines source_code) \<and> position < length (rstrip (drop 6 line))
      \<and> rstrip (drop 6 line) ! position = CHR ''*''"
  then have "LF \<notin> set line"
    using splitlines_no_LF [of line source_code] by blast
  then have "LF \<notin> set (rstrip (drop 6 line))"
    using set_rstrip [of "drop 6 line"] by (auto dest: in_set_dropD)
  with a show "tokenize_line (rstrip (drop 6 line)) position ln col =
      [\<lparr>tok_type = COMMENT, tok_value = drop position (rstrip (drop 6 line)), tok_line = ln,
        tok_column = col\<rparr>]"
    by (simp add: tokenize_line_star)
next
  show "\<lparr>tok_type = OPERATOR, tok_value = ''*'', tok_line = l, tok_column = c\<rparr>
        \<notin> set (tokenize source_code)"
    by (rule tokenize_no_star)
qed

text \<open>The theorem at the line \<^verbatim>\<open>A * B\<close>, with the scan at the asterisk.\<close>

theorem asterisk_starts_comment_witness:
  "''       A * B  '' \<in> set (splitlines ''       A * B  '')
   \<and> (3::nat) < length (rstrip (drop 6 ''       A * B  ''))
   \<and> rstrip (drop 6 ''       A * B  '') ! 3 = CHR ''*''
   \<and> tokenize_line (rstrip (drop 6 ''       A * B  '')) 3 1 10 =
       [\<lparr>tok_type = COMMENT, tok_value = ''* B'', tok_line = 1, tok_column = 10\<rparr>]"
proof -
  have h1: "''       A * B  '' \<in> set (splitlines ''       A * B  '')"
    by code_simp
  have h2: "(3::nat) < length (rstrip (drop 6 ''       A * B  ''))"
    by code_simp
  have h3: "rstrip (drop 6 ''       A * B  '') ! 3 = CHR ''*''"
    by code_simp
  have h4: "drop 3 (rstrip (drop 6 ''       A * B  '')) = ''* B''"
    by code_simp
  from asterisk_starts_comment [of "''       A * B  ''" "''       A * B  ''" 3 1 10] h1 h2 h3
  have "tokenize_line (rstrip (drop 6 ''       A * B  '')) 3 1 10 =
      [\<lparr>tok_type = COMMENT, tok_value = drop 3 (rstrip (drop 6 ''       A * B  '')),
        tok_line = 1, tok_column = 10\<rparr>]"
    by blast
  with h1 h2 h3 h4 show ?thesis
    by simp
qed

section \<open>Properties of the parser\<close>

subsection \<open>A block that no END-EXEC closes\<close>

lemma drop_head: "i < length ts \<Longrightarrow> drop i ts = ts ! i # drop (Suc i) ts"
  by (simp add: Cons_nth_drop_Suc)

lemma skip_to_end_exec_none:
  "''END-EXEC'' \<notin> set (map value_upper (drop i ts)) \<Longrightarrow> i \<le> length ts \<Longrightarrow>
     skip_to_end_exec ts i = length ts"
proof (induction ts i rule: skip_to_end_exec.induct)
  case (1 ts i)
  show ?case
  proof (cases "i < length ts")
    case False
    with "1.prems" show ?thesis
      by (subst skip_to_end_exec.simps) simp
  next
    case True
    with "1.prems"(1) have here: "value_upper (ts ! i) \<noteq> ''END-EXEC''"
      and later: "''END-EXEC'' \<notin> set (map value_upper (drop (i + 1) ts))"
      by (auto simp: drop_head)
    from True have "i + 1 \<le> length ts"
      by simp
    from "1.IH" [OF _ later this] True here show ?thesis
      by (subst skip_to_end_exec.simps) simp
  qed
qed

lemma extract_resources_from_done: "length ts \<le> i \<Longrightarrow> extract_resources_from ts i rs = rs"
  by (subst extract_resources_from.simps) simp

lemma first_keyword_Cons:
  "first_keyword (t # ts) = (if tok_type t = KEYWORD then Some (value_upper t) else first_keyword ts)"
  by (simp add: first_keyword_def)

lemma block_scan_operation:
  "''END-EXEC'' \<notin> set (map value_upper (drop j ts)) \<Longrightarrow>
     fst (block_scan words ts j acc) =
       (case fst acc of Some op \<Rightarrow> Some op | None \<Rightarrow> first_keyword (drop j ts))"
proof (induction words ts j acc rule: block_scan.induct)
  case (1 words ts j acc)
  show ?case
  proof (cases "j < length ts")
    case False
    then show ?thesis
      by (subst block_scan.simps) (simp add: first_keyword_def split: option.splits)
  next
    case True
    with "1.prems" have here: "value_upper (ts ! j) \<noteq> ''END-EXEC''"
      and later: "''END-EXEC'' \<notin> set (map value_upper (drop (j + 1) ts))"
      by (auto simp: drop_head)
    from True here have c: "j < length ts \<and> value_upper (ts ! j) \<noteq> ''END-EXEC''"
      by simp
    show ?thesis
      using True here "1.IH" [OF c later]
      by (subst block_scan.simps)
        (auto simp: drop_head [OF True] first_keyword_Cons split: option.splits)
  qed
qed

subsection \<open>The examples, token by token\<close>

lemma tokenize_sql_star:
  "tokenize ''       EXEC SQL SELECT * FROM CUSTOMER END-EXEC'' =
     [\<lparr>tok_type = KEYWORD, tok_value = ''EXEC'', tok_line = 1, tok_column = 8\<rparr>,
      \<lparr>tok_type = IDENTIFIER, tok_value = ''SQL'', tok_line = 1, tok_column = 13\<rparr>,
      \<lparr>tok_type = KEYWORD, tok_value = ''SELECT'', tok_line = 1, tok_column = 17\<rparr>,
      \<lparr>tok_type = COMMENT, tok_value = ''* FROM CUSTOMER END-EXEC'', tok_line = 1,
        tok_column = 24\<rparr>]"
  by code_simp

lemma resources_sql_star:
  "extract_resources
     [\<lparr>tok_type = KEYWORD, tok_value = ''EXEC'', tok_line = 1, tok_column = 8\<rparr>,
      \<lparr>tok_type = IDENTIFIER, tok_value = ''SQL'', tok_line = 1, tok_column = 13\<rparr>,
      \<lparr>tok_type = KEYWORD, tok_value = ''SELECT'', tok_line = 1, tok_column = 17\<rparr>,
      \<lparr>tok_type = COMMENT, tok_value = ''* FROM CUSTOMER END-EXEC'', tok_line = 1,
        tok_column = 24\<rparr>] =
     [\<lparr>resource_name = ''UNKNOWN'', resource_type = ''SQL'', resource_operation = ''SELECT'',
       resource_location = (1, 8)\<rparr>]"
  by code_simp

lemma tokenize_unterminated:
  "tokenize ''       EXEC SQL SELECT NAME FROM CUSTOMER'' =
     [\<lparr>tok_type = KEYWORD, tok_value = ''EXEC'', tok_line = 1, tok_column = 8\<rparr>,
      \<lparr>tok_type = IDENTIFIER, tok_value = ''SQL'', tok_line = 1, tok_column = 13\<rparr>,
      \<lparr>tok_type = KEYWORD, tok_value = ''SELECT'', tok_line = 1, tok_column = 17\<rparr>,
      \<lparr>tok_type = IDENTIFIER, tok_value = ''NAME'', tok_line = 1, tok_column = 24\<rparr>,
      \<lparr>tok_type = KEYWORD, tok_value = ''FROM'', tok_line = 1, tok_column = 29\<rparr>,
      \<lparr>tok_type = IDENTIFIER, tok_value = ''CUSTOMER'', tok_line = 1, tok_column = 34\<rparr>]"
  by code_simp

lemma resources_unterminated:
  "extract_resources
     [\<lparr>tok_type = KEYWORD, tok_value = ''EXEC'', tok_line = 1, tok_column = 8\<rparr>,
      \<lparr>tok_type = IDENTIFIER, tok_value = ''SQL'', tok_line = 1, tok_column = 13\<rparr>,
      \<lparr>tok_type = KEYWORD, tok_value = ''SELECT'', tok_line = 1, tok_column = 17\<rparr>,
      \<lparr>tok_type = IDENTIFIER, tok_value = ''NAME'', tok_line = 1, tok_column = 24\<rparr>,
      \<lparr>tok_type = KEYWORD, tok_value = ''FROM'', tok_line = 1, tok_column = 29\<rparr>,
      \<lparr>tok_type = IDENTIFIER, tok_value = ''CUSTOMER'', tok_line = 1, tok_column = 34\<rparr>] =
     [\<lparr>resource_name = ''CUSTOMER'', resource_type = ''SQL'', resource_operation = ''SELECT'',
       resource_location = (1, 8)\<rparr>]"
  by code_simp

lemma values_unterminated:
  "map value_upper
     [\<lparr>tok_type = KEYWORD, tok_value = ''EXEC'', tok_line = 1, tok_column = 8\<rparr>,
      \<lparr>tok_type = IDENTIFIER, tok_value = ''SQL'', tok_line = 1, tok_column = 13\<rparr>,
      \<lparr>tok_type = KEYWORD, tok_value = ''SELECT'', tok_line = 1, tok_column = 17\<rparr>,
      \<lparr>tok_type = IDENTIFIER, tok_value = ''NAME'', tok_line = 1, tok_column = 24\<rparr>,
      \<lparr>tok_type = KEYWORD, tok_value = ''FROM'', tok_line = 1, tok_column = 29\<rparr>,
      \<lparr>tok_type = IDENTIFIER, tok_value = ''CUSTOMER'', tok_line = 1, tok_column = 34\<rparr>] =
     [''EXEC'', ''SQL'', ''SELECT'', ''NAME'', ''FROM'', ''CUSTOMER'']"
  by code_simp

lemma tokenize_move:
  "tokenize ''       MOVE WS-A TO WS-B'' =
     [\<lparr>tok_type = KEYWORD, tok_value = ''MOVE'', tok_line = 1, tok_column = 8\<rparr>,
      \<lparr>tok_type = IDENTIFIER, tok_value = ''WS-A'', tok_line = 1, tok_column = 13\<rparr>,
      \<lparr>tok_type = KEYWORD, tok_value = ''TO'', tok_line = 1, tok_column = 18\<rparr>,
      \<lparr>tok_type = IDENTIFIER, tok_value = ''WS-B'', tok_line = 1, tok_column = 21\<rparr>]"
  by code_simp

lemma files_move:
  "extract_file_references
     [\<lparr>tok_type = KEYWORD, tok_value = ''MOVE'', tok_line = 1, tok_column = 8\<rparr>,
      \<lparr>tok_type = IDENTIFIER, tok_value = ''WS-A'', tok_line = 1, tok_column = 13\<rparr>,
      \<lparr>tok_type = KEYWORD, tok_value = ''TO'', tok_line = 1, tok_column = 18\<rparr>,
      \<lparr>tok_type = IDENTIFIER, tok_value = ''WS-B'', tok_line = 1, tok_column = 21\<rparr>] =
     [\<lparr>file_name = ''WS-A'', file_access_mode = ''UNKNOWN'', file_organization = None,
       file_record_key = None, file_location = (1, 8)\<rparr>,
      \<lparr>file_name = ''WS-B'', file_access_mode = ''UNKNOWN'', file_organization = None,
       file_record_key = None, file_location = (1, 8)\<rparr>]"
  by code_simp

lemma tokenize_send_map:
  "tokenize ''       SEND MAP MENU1'' =
     [\<lparr>tok_type = KEYWORD, tok_value = ''SEND'', tok_line = 1, tok_column = 8\<rparr>,
      \<lparr>tok_type = IDENTIFIER, tok_value = ''MAP'', tok_line = 1, tok_column = 13\<rparr>,
      \<lparr>tok_type = IDENTIFIER, tok_value = ''MENU1'', tok_line = 1, tok_column = 17\<rparr>]"
  by code_simp

lemma maps_send_map:
  "extract_maps
     [\<lparr>tok_type = KEYWORD, tok_value = ''SEND'', tok_line = 1, tok_column = 8\<rparr>,
      \<lparr>tok_type = IDENTIFIER, tok_value = ''MAP'', tok_line = 1, tok_column = 13\<rparr>,
      \<lparr>tok_type = IDENTIFIER, tok_value = ''MENU1'', tok_line = 1, tok_column = 17\<rparr>] = {}"
  by code_simp

lemma tokenize_cics_map:
  "tokenize ''       EXEC CICS SEND MAP MENU1 END-EXEC'' =
     [\<lparr>tok_type = KEYWORD, tok_value = ''EXEC'', tok_line = 1, tok_column = 8\<rparr>,
      \<lparr>tok_type = IDENTIFIER, tok_value = ''CICS'', tok_line = 1, tok_column = 13\<rparr>,
      \<lparr>tok_type = KEYWORD, tok_value = ''SEND'', tok_line = 1, tok_column = 18\<rparr>,
      \<lparr>tok_type = IDENTIFIER, tok_value = ''MAP'', tok_line = 1, tok_column = 23\<rparr>,
      \<lparr>tok_type = IDENTIFIER, tok_value = ''MENU1'', tok_line = 1, tok_column = 27\<rparr>,
      \<lparr>tok_type = KEYWORD, tok_value = ''END-EXEC'', tok_line = 1, tok_column = 33\<rparr>]"
  by code_simp

lemma maps_cics_map:
  "extract_maps
     [\<lparr>tok_type = KEYWORD, tok_value = ''EXEC'', tok_line = 1, tok_column = 8\<rparr>,
      \<lparr>tok_type = IDENTIFIER, tok_value = ''CICS'', tok_line = 1, tok_column = 13\<rparr>,
      \<lparr>tok_type = KEYWORD, tok_value = ''SEND'', tok_line = 1, tok_column = 18\<rparr>,
      \<lparr>tok_type = IDENTIFIER, tok_value = ''MAP'', tok_line = 1, tok_column = 23\<rparr>,
      \<lparr>tok_type = IDENTIFIER, tok_value = ''MENU1'', tok_line = 1, tok_column = 27\<rparr>,
      \<lparr>tok_type = KEYWORD, tok_value = ''END-EXEC'', tok_line = 1, tok_column = 33\<rparr>]
     = {''MENU1''}"
  by code_simp

lemma tokenize_section:
  "tokenize (''       PROCEDURE DIVISION.'' @ [LF] @ ''       MAIN-LOGIC SECTION.'') =
     [\<lparr>tok_type = DIVISION, tok_value = ''PROCEDURE'', tok_line = 1, tok_column = 8\<rparr>,
      \<lparr>tok_type = KEYWORD, tok_value = ''DIVISION'', tok_line = 1, tok_column = 18\<rparr>,
      \<lparr>tok_type = PUNCTUATION, tok_value = ''.'', tok_line = 1, tok_column = 26\<rparr>,
      \<lparr>tok_type = IDENTIFIER, tok_value = ''MAIN-LOGIC'', tok_line = 2, tok_column = 8\<rparr>,
      \<lparr>tok_type = KEYWORD, tok_value = ''SECTION'', tok_line = 2, tok_column = 19\<rparr>,
      \<lparr>tok_type = PUNCTUATION, tok_value = ''.'', tok_line = 2, tok_column = 26\<rparr>]"
  by code_simp

lemma upper_PROCEDURE: "upper ''PROCEDURE'' = ''PROCEDURE''"
  by code_simp

lemma divisions_section:
  "fst (parse_divisions
     [\<lparr>tok_type = DIVISION, tok_value = ''PROCEDURE'', tok_line = 1, tok_column = 8\<rparr>,
      \<lparr>tok_type = KEYWORD, tok_value = ''DIVISION'', tok_line = 1, tok_column = 18\<rparr>,
      \<lparr>tok_type = PUNCTUATION, tok_value = ''.'', tok_line = 1, tok_column = 26\<rparr>,
      \<lparr>tok_type = IDENTIFIER, tok_value = ''MAIN-LOGIC'', tok_line = 2, tok_column = 8\<rparr>,
      \<lparr>tok_type = KEYWORD, tok_value = ''SECTION'', tok_line = 2, tok_column = 19\<rparr>,
      \<lparr>tok_type = PUNCTUATION, tok_value = ''.'', tok_line = 2, tok_column = 26\<rparr>]) =
   [''PROCEDURE'' \<mapsto> \<lparr>division_name = ''PROCEDURE'', division_start_line = 1,
       division_end_line = 2, division_sections = Map.empty\<rparr>]"
  by (simp add: parse_divisions_def parse_divisions_from.simps divisions_step_def
      value_upper_def upper_PROCEDURE end_division_def end_section_def Let_def)

lemma tokenize_call_billing:
  "tokenize (call_source ''BILLING'') =
     [\<lparr>tok_type = KEYWORD, tok_value = ''CALL'', tok_line = 1, tok_column = 8\<rparr>,
      \<lparr>tok_type = LITERAL, tok_value = ''BILLING'', tok_line = 1, tok_column = 13\<rparr>]"
  by code_simp

lemma tokenize_call_orderproc:
  "tokenize (call_source ''ORDERPROC'') =
     [\<lparr>tok_type = KEYWORD, tok_value = ''CALL'', tok_line = 1, tok_column = 8\<rparr>,
      \<lparr>tok_type = LITERAL, tok_value = ''ORDERPROC'', tok_line = 1, tok_column = 13\<rparr>]"
  by code_simp

lemma calls_one_literal:
  "extract_program_calls
     [\<lparr>tok_type = KEYWORD, tok_value = ''CALL'', tok_line = 1, tok_column = 8\<rparr>,
      \<lparr>tok_type = LITERAL, tok_value = name, tok_line = 1, tok_column = 13\<rparr>] =
     (if name = [] then []
      else [\<lparr>call_target = name, call_is_dynamic = False, call_parameters = [],
              call_location = (1, 8)\<rparr>])"
proof -
  have up: "value_upper \<lparr>tok_type = KEYWORD, tok_value = ''CALL'', tok_line = 1, tok_column = 8\<rparr>
      = ''CALL''"
    by code_simp
  show ?thesis
    by (simp add: extract_program_calls_def program_calls_from.simps
        call_parameters_from.simps up Let_def)
qed

lemma no_exec_one_literal:
  "extract_resources
     [\<lparr>tok_type = KEYWORD, tok_value = ''CALL'', tok_line = 1, tok_column = 8\<rparr>,
      \<lparr>tok_type = LITERAL, tok_value = name, tok_line = 1, tok_column = 13\<rparr>] = []"
proof -
  have up: "value_upper \<lparr>tok_type = KEYWORD, tok_value = ''CALL'', tok_line = 1, tok_column = 8\<rparr>
      = ''CALL''"
    by code_simp
  show ?thesis
    by (simp add: extract_resources_def extract_resources_from.simps up)
qed

lemma tokenize_pay:
  "tokenize pay_source =
     [\<lparr>tok_type = KEYWORD, tok_value = ''CALL'', tok_line = 1, tok_column = 8\<rparr>,
      \<lparr>tok_type = LITERAL, tok_value = ''BILLING'', tok_line = 1, tok_column = 13\<rparr>,
      \<lparr>tok_type = KEYWORD, tok_value = ''EXEC'', tok_line = 2, tok_column = 8\<rparr>,
      \<lparr>tok_type = IDENTIFIER, tok_value = ''SQL'', tok_line = 2, tok_column = 13\<rparr>,
      \<lparr>tok_type = KEYWORD, tok_value = ''SELECT'', tok_line = 2, tok_column = 17\<rparr>,
      \<lparr>tok_type = IDENTIFIER, tok_value = ''NAME'', tok_line = 2, tok_column = 24\<rparr>,
      \<lparr>tok_type = KEYWORD, tok_value = ''FROM'', tok_line = 2, tok_column = 29\<rparr>,
      \<lparr>tok_type = IDENTIFIER, tok_value = ''CUSTOMER'', tok_line = 2, tok_column = 34\<rparr>,
      \<lparr>tok_type = KEYWORD, tok_value = ''END-EXEC'', tok_line = 2, tok_column = 43\<rparr>]"
  by code_simp

lemma calls_pay:
  "extract_program_calls
     [\<lparr>tok_type = KEYWORD, tok_value = ''CALL'', tok_line = 1, tok_column = 8\<rparr>,
      \<lparr>tok_type = LITERAL, tok_value = ''BILLING'', tok_line = 1, tok_column = 13\<rparr>,
      \<lparr>tok_type = KEYWORD, tok_value = ''EXEC'', tok_line = 2, tok_column = 8\<rparr>,
      \<lparr>tok_type = IDENTIFIER, tok_value = ''SQL'', tok_line = 2, tok_column = 13\<rparr>,
      \<lparr>tok_type = KEYWORD, tok_value = ''SELECT'', tok_line = 2, tok_column = 17\<rparr>,
      \<lparr>tok_type = IDENTIFIER, tok_value = ''NAME'', tok_line = 2, tok_column = 24\<rparr>,
      \<lparr>tok_type = KEYWORD, tok_value = ''FROM'', tok_line = 2, tok_column = 29\<rparr>,
      \<lparr>tok_type = IDENTIFIER, tok_value = ''CUSTOMER'', tok_line = 2, tok_column = 34\<rparr>,
      \<lparr>tok_type = KEYWORD, tok_value = ''END-EXEC'', tok_line = 2, tok_column = 43\<rparr>] =
     [\<lparr>call_target = ''BILLING'', call_is_dynamic = False, call_parameters = [],
       call_location = (1, 8)\<rparr>]"
  by code_simp

lemma resources_pay:
  "extract_resources
     [\<lparr>tok_type = KEYWORD, tok_value = ''CALL'', tok_line = 1, tok_column = 8\<rparr>,
      \<lparr>tok_type = LITERAL, tok_value = ''BILLING'', tok_line = 1, tok_column = 13\<rparr>,
      \<lparr>tok_type = KEYWORD, tok_value = ''EXEC'', tok_line = 2, tok_column = 8\<rparr>,
      \<lparr>tok_type = IDENTIFIER, tok_value = ''SQL'', tok_line = 2, tok_column = 13\<rparr>,
      \<lparr>tok_type = KEYWORD, tok_value = ''SELECT'', tok_line = 2, tok_column = 17\<rparr>,
      \<lparr>tok_type = IDENTIFIER, tok_value = ''NAME'', tok_line = 2, tok_column = 24\<rparr>,
      \<lparr>tok_type = KEYWORD, tok_value = ''FROM'', tok_line = 2, tok_column = 29\<rparr>,
      \<lparr>tok_type = IDENTIFIER, tok_value = ''CUSTOMER'', tok_line = 2, tok_column = 34\<rparr>,
      \<lparr>tok_type = KEYWORD, tok_value = ''END-EXEC'', tok_line = 2, tok_column = 43\<rparr>] =
     [\<lparr>resource_name = ''CUSTOMER'', resource_type = ''SQL'', resource_operation = ''SELECT'',
       resource_location = (2, 8)\<rparr>]"
  by code_simp

lemma name_orderproc: "splitext_root (basename ''ORDERPROC.cbl'') = ''ORDERPROC''"
  by code_simp

lemma name_billing: "splitext_root (basename ''BILLING.cbl'') = ''BILLING''"
  by code_simp

lemma name_pay: "splitext_root (basename ''src/PAY.cbl'') = ''PAY''"
  by code_simp

subsection \<open>Two branches that no text reaches\<close>

text \<open>
  The tokenizer gives no token the type SECTION, so the scope pass never opens a
  section: in the program of every text, every division has an empty map of sections.
\<close>

lemma word_type_not_section: "word_type x \<noteq> SECTION"
  by (simp add: word_type_def Let_def)

lemma scan_step_not_section:
  "scan_step s ln col = (Some t, n) \<Longrightarrow> tok_type t \<noteq> SECTION"
  unfolding scan_step_def
  by (auto simp: Let_def word_type_not_section split: option.splits if_splits)

lemma tokenize_line_not_section:
  "t \<in> set (tokenize_line line position ln col) \<Longrightarrow> tok_type t \<noteq> SECTION"
proof (induction line position ln col rule: tokenize_line.induct)
  case (1 line position ln col)
  show ?case
  proof (cases "position < length line")
    case False
    with "1.prems" show ?thesis by (simp add: tokenize_line.simps)
  next
    case True
    obtain tok n where st: "scan_step (drop position line) ln col = (tok, n)"
      by (cases "scan_step (drop position line) ln col")
    from "1.prems" True st
    have "t \<in> set (case tok of None \<Rightarrow> [] | Some u \<Rightarrow> [u])
        \<or> t \<in> set (tokenize_line line (position + n) ln (col + int n))"
      by (subst (asm) tokenize_line.simps) simp
    then show ?thesis
    proof
      assume "t \<in> set (case tok of None \<Rightarrow> [] | Some u \<Rightarrow> [u])"
      then have "tok = Some t"
        by (cases tok) auto
      with st show ?thesis
        by (auto dest: scan_step_not_section)
    next
      assume "t \<in> set (tokenize_line line (position + n) ln (col + int n))"
      from "1.IH" [OF True st [symmetric] this] show ?thesis .
    qed
  qed
qed

lemma tokenize_lines_not_section:
  "t \<in> set (tokenize_lines ls line_num) \<Longrightarrow> tok_type t \<noteq> SECTION"
proof (induction ls arbitrary: line_num)
  case Nil
  then show ?case by simp
next
  case (Cons line rest)
  from Cons.prems Cons.IH tokenize_line_not_section show ?case
    by (auto split: if_splits)
qed

lemma tokenize_not_section: "t \<in> set (tokenize source_code) \<Longrightarrow> tok_type t \<noteq> SECTION"
  unfolding tokenize_def by (rule tokenize_lines_not_section)

lemma end_division_no_sections:
  assumes "case dv of None \<Rightarrow> True | Some d \<Rightarrow> division_sections d = Map.empty"
    and "\<forall>n d. divs n = Some d \<longrightarrow> division_sections d = Map.empty"
    and "end_division dv None par e divs n = Some d"
  shows "division_sections d = Map.empty"
  using assms
  by (auto simp: end_division_def end_section_def Let_def split: option.splits if_splits)

lemma divisions_step_no_sections:
  assumes "no_sections st" and "tok_type (ts ! i) \<noteq> SECTION"
  shows "no_sections (divisions_step ts i st)"
proof -
  from assms(1) have sec: "current_section st = None"
    and dv: "case current_division st of None \<Rightarrow> True | Some d \<Rightarrow> division_sections d = Map.empty"
    and divs: "\<forall>n d. program_divisions st n = Some d \<longrightarrow> division_sections d = Map.empty"
    by (simp_all add: no_sections_def)
  have stored: "\<And>e n d. end_division (current_division st) None (current_paragraph st) e
        (program_divisions st) n = Some d \<Longrightarrow> division_sections d = Map.empty"
    using end_division_no_sections [OF dv divs] by blast
  show ?thesis
    using assms(2) sec dv divs stored
    unfolding divisions_step_def no_sections_def Let_def
    by (auto split: option.splits)
qed

lemma parse_divisions_from_no_sections:
  "no_sections st \<Longrightarrow> \<forall>t \<in> set ts. tok_type t \<noteq> SECTION \<Longrightarrow>
     no_sections (parse_divisions_from ts i st)"
proof (induction ts i st rule: parse_divisions_from.induct)
  case (1 ts i st)
  show ?case
  proof (cases "i < length ts")
    case False
    with "1.prems" show ?thesis
      by (subst parse_divisions_from.simps) simp
  next
    case True
    with "1.prems"(2) have "tok_type (ts ! i) \<noteq> SECTION"
      by simp
    from divisions_step_no_sections [OF "1.prems"(1) this]
    have "no_sections (divisions_step ts i st)" .
    from "1.IH" [OF True this "1.prems"(2)] True show ?thesis
      by (subst parse_divisions_from.simps) simp
  qed
qed

lemma parse_divisions_no_sections:
  assumes "\<forall>t \<in> set ts. tok_type t \<noteq> SECTION" and "fst (parse_divisions ts) n = Some d"
  shows "division_sections d = Map.empty"
proof -
  define st where "st = parse_divisions_from ts 0
                 \<lparr>current_division = None, current_section = None, current_paragraph = None,
                   program_divisions = Map.empty, program_data_items = Map.empty\<rparr>"
  have "no_sections st"
    unfolding st_def
    by (rule parse_divisions_from_no_sections [OF _ assms(1)]) (simp add: no_sections_def)
  then have sec: "current_section st = None"
    and dv: "case current_division st of None \<Rightarrow> True | Some d \<Rightarrow> division_sections d = Map.empty"
    and divs: "\<forall>n d. program_divisions st n = Some d \<longrightarrow> division_sections d = Map.empty"
    by (simp_all add: no_sections_def)
  from assms(2) have "end_division (current_division st) None (current_paragraph st)
      (if ts = [] then 0 else tok_line (last ts)) (program_divisions st) n = Some d"
    unfolding parse_divisions_def Let_def st_def [symmetric] by (simp add: sec)
  from end_division_no_sections [OF dv divs this] show ?thesis .
qed

lemma sections_never_recognized:
  "divisions (parse_source path source_code) n = Some d \<Longrightarrow> division_sections d = Map.empty"
  using parse_divisions_no_sections [of "tokenize source_code" n d] tokenize_not_section
  by (auto simp: parse_source_def Let_def)

text \<open>
  A token of type keyword has its upper-case text in the keyword table, and MAP is not
  in the table: the test of \<^verbatim>\<open>_extract_maps\<close> for a keyword MAP outside a block fails at
  every token of every text.
\<close>

lemma MAP_not_keyword: "''MAP'' \<notin> set KEYWORDS"
  by (simp add: KEYWORDS_def)

lemma word_type_keyword: "word_type x = KEYWORD \<Longrightarrow> upper x \<in> set KEYWORDS"
  by (simp add: word_type_def Let_def split: if_splits)

lemma scan_step_keyword:
  "scan_step s ln col = (Some t, n) \<Longrightarrow> tok_type t = KEYWORD \<Longrightarrow> value_upper t \<in> set KEYWORDS"
  unfolding scan_step_def value_upper_def
  by (auto simp: Let_def dest: word_type_keyword split: option.splits if_splits)

lemma tokenize_line_keyword:
  "t \<in> set (tokenize_line line position ln col) \<Longrightarrow> tok_type t = KEYWORD \<Longrightarrow>
     value_upper t \<in> set KEYWORDS"
proof (induction line position ln col rule: tokenize_line.induct)
  case (1 line position ln col)
  show ?case
  proof (cases "position < length line")
    case False
    with "1.prems" show ?thesis by (simp add: tokenize_line.simps)
  next
    case True
    obtain tok n where st: "scan_step (drop position line) ln col = (tok, n)"
      by (cases "scan_step (drop position line) ln col")
    from "1.prems"(1) True st
    have "t \<in> set (case tok of None \<Rightarrow> [] | Some u \<Rightarrow> [u])
        \<or> t \<in> set (tokenize_line line (position + n) ln (col + int n))"
      by (subst (asm) tokenize_line.simps) simp
    then show ?thesis
    proof
      assume "t \<in> set (case tok of None \<Rightarrow> [] | Some u \<Rightarrow> [u])"
      then have "tok = Some t"
        by (cases tok) auto
      with st "1.prems"(2) show ?thesis
        by (auto dest: scan_step_keyword)
    next
      assume "t \<in> set (tokenize_line line (position + n) ln (col + int n))"
      from "1.IH" [OF True st [symmetric] this "1.prems"(2)] show ?thesis .
    qed
  qed
qed

lemma tokenize_lines_keyword:
  "t \<in> set (tokenize_lines ls line_num) \<Longrightarrow> tok_type t = KEYWORD \<Longrightarrow>
     value_upper t \<in> set KEYWORDS"
proof (induction ls arbitrary: line_num)
  case Nil
  then show ?case by simp
next
  case (Cons line rest)
  from Cons.prems Cons.IH tokenize_line_keyword show ?case
    by (auto split: if_splits)
qed

lemma map_is_never_keyword:
  "t \<in> set (tokenize source_code) \<Longrightarrow> \<not> (tok_type t = KEYWORD \<and> value_upper t = ''MAP'')"
  unfolding tokenize_def using tokenize_lines_keyword [of t] MAP_not_keyword
  by auto

subsection \<open>The claims on the parser\<close>

text \<open>
  Claim C1 (the block \<^verbatim>\<open>EXEC SQL SELECT * FROM CUSTOMER END-EXEC\<close> on one line gives one
  Resource of type SQL with the operation SELECT and the name CUSTOMER). On that line
  the parser gives one Resource of type SQL with the operation SELECT, and its name is
  UNKNOWN: the asterisk starts a Comment token that takes the rest of the line, so the
  words FROM, CUSTOMER and END-EXEC are never tokens. The operator pattern of the
  tokenizer lists the asterisk, and with a column name in its place the name is found
  (lemma \<open>resources_pay\<close>).
\<close>

theorem sql_select_star_name_unknown:
  "resources (parse_source path ''       EXEC SQL SELECT * FROM CUSTOMER END-EXEC'') =
     [\<lparr>resource_name = ''UNKNOWN'', resource_type = ''SQL'', resource_operation = ''SELECT'',
       resource_location = (1, 8)\<rparr>]"
  by (simp add: parse_source_def Let_def tokenize_sql_star resources_sql_star)

text \<open>
  Claim C2 (an identifier before the word SECTION, while a division is open, opens a
  Section that is in the sections of the division after the parse). The parser opens
  a section at a token of type SECTION, and the tokenizer gives the word SECTION the
  type KEYWORD, as it gives every word of its keyword table but the four division
  names (lemma \<open>sections_never_recognized\<close>: no text at all gives a division a section).
  On the two lines below the division PROCEDURE is there after the parse and it has no
  section.
\<close>

theorem section_word_opens_no_section:
  "divisions (parse_source path
       (''       PROCEDURE DIVISION.'' @ [LF] @ ''       MAIN-LOGIC SECTION.'')) =
     [''PROCEDURE'' \<mapsto> \<lparr>division_name = ''PROCEDURE'', division_start_line = 1,
         division_end_line = 2, division_sections = Map.empty\<rparr>]"
  by (simp only: parse_source_def Let_def tokenize_section divisions_section
      CobolProgram.simps)

text \<open>
  Claim C3 (the second scan registers an identifier as a file with the access mode
  UNKNOWN if and only if it follows an I/O verb on its line and is not yet in the
  files; no identifier on a line without such a verb is registered). A line without
  any I/O verb: both of its identifiers are registered as files.
\<close>

theorem identifiers_without_verb_are_files:
  "files (parse_source path ''       MOVE WS-A TO WS-B'') =
     [\<lparr>file_name = ''WS-A'', file_access_mode = ''UNKNOWN'', file_organization = None,
       file_record_key = None, file_location = (1, 8)\<rparr>,
      \<lparr>file_name = ''WS-B'', file_access_mode = ''UNKNOWN'', file_organization = None,
       file_record_key = None, file_location = (1, 8)\<rparr>]"
  by (simp add: parse_source_def Let_def tokenize_move files_move)

text \<open>
  Claim C5 as the code has it. When the keyword EXEC at index \<open>i\<close> has a token behind
  it and no token from \<open>i\<close> on has the value END-EXEC, the scan for the end of the block
  stops at the end of the tokens, and the extraction from \<open>i\<close> ends with a definite
  result: the resources found so far, and one more for the open block exactly when the
  type is SQL, CICS or MQ and the first token of type keyword in the block has a text
  that is not empty. That resource has the type of the block, that keyword as its
  operation and the position of EXEC.
\<close>

theorem unterminated_exec_block:
  "i + 1 < length ts \<and> tok_type (ts ! i) = KEYWORD \<and> value_upper (ts ! i) = ''EXEC''
     \<and> ''END-EXEC'' \<notin> set (map value_upper (drop i ts)) \<longrightarrow>
   skip_to_end_exec ts i = length ts
   \<and> (case first_keyword (drop (i + 2) ts) of
        None \<Rightarrow> extract_resources_from ts i rs = rs
      | Some op \<Rightarrow>
          if value_upper (ts ! (i + 1)) \<in> set [''SQL'', ''CICS'', ''MQ''] \<and> op \<noteq> [] then
            \<exists>name. extract_resources_from ts i rs =
              rs @ [\<lparr>resource_name = name, resource_type = value_upper (ts ! (i + 1)),
                     resource_operation = op,
                     resource_location = (tok_line (ts ! i), tok_column (ts ! i))\<rparr>]
          else extract_resources_from ts i rs = rs)"
proof
  assume a: "i + 1 < length ts \<and> tok_type (ts ! i) = KEYWORD \<and> value_upper (ts ! i) = ''EXEC''
     \<and> ''END-EXEC'' \<notin> set (map value_upper (drop i ts))"
  then have less: "i < length ts" and less1: "i + 1 < length ts"
    and no_end: "''END-EXEC'' \<notin> set (map value_upper (drop i ts))"
    by simp_all
  from no_end have no_end2: "''END-EXEC'' \<notin> set (map value_upper (drop (i + 2) ts))"
    using less less1 by (auto simp: drop_head [OF less] drop_head [of "Suc i" ts])
  from skip_to_end_exec_none [OF no_end] less have skip: "skip_to_end_exec ts i = length ts"
    by simp
  define rtype where "rtype = value_upper (ts ! (i + 1))"
  define found where "found =
            (if rtype = ''SQL'' then
               block_scan [''FROM'', ''INTO'', ''UPDATE'', ''TABLE''] ts (i + 2) (None, None)
             else if rtype = ''CICS'' then
               block_scan [''PROGRAM'', ''TRANSID'', ''QUEUE'', ''FILE''] ts (i + 2) (None, None)
             else if rtype = ''MQ'' then
               block_scan [''QNAME'', ''QUEUE''] ts (i + 2) (None, None)
             else (None, None))"
  have scan: "\<And>words. fst (block_scan words ts (i + 2) (None, None)) = first_keyword (drop (i + 2) ts)"
    using block_scan_operation [OF no_end2] by simp
  have operation: "fst found =
      (if rtype \<in> set [''SQL'', ''CICS'', ''MQ''] then first_keyword (drop (i + 2) ts) else None)"
    unfolding found_def using scan by auto
  have unfold: "extract_resources_from ts i rs =
     (case fst found of
            None \<Rightarrow> rs
          | Some op \<Rightarrow>
              if rtype \<noteq> [] \<and> op \<noteq> [] then
                rs @ [\<lparr>resource_name =
                          (case snd found of
                             None \<Rightarrow> ''UNKNOWN''
                           | Some n \<Rightarrow> if n = [] then ''UNKNOWN'' else n),
                        resource_type = rtype, resource_operation = op,
                        resource_location = (tok_line (ts ! i), tok_column (ts ! i))\<rparr>]
              else rs)"
    using a by (subst extract_resources_from.simps)
      (auto simp: skip extract_resources_from_done Let_def found_def rtype_def
        split: option.splits)
  have result: "case first_keyword (drop (i + 2) ts) of
        None \<Rightarrow> extract_resources_from ts i rs = rs
      | Some op \<Rightarrow>
          if rtype \<in> set [''SQL'', ''CICS'', ''MQ''] \<and> op \<noteq> [] then
            \<exists>name. extract_resources_from ts i rs =
              rs @ [\<lparr>resource_name = name, resource_type = rtype,
                     resource_operation = op,
                     resource_location = (tok_line (ts ! i), tok_column (ts ! i))\<rparr>]
          else extract_resources_from ts i rs = rs"
  proof (cases "first_keyword (drop (i + 2) ts)")
    case None
    with operation have "fst found = None"
      by simp
    with None show ?thesis
      by (simp add: unfold)
  next
    case (Some op)
    show ?thesis
    proof (cases "rtype \<in> set [''SQL'', ''CICS'', ''MQ''] \<and> op \<noteq> []")
      case True
      with operation Some have "fst found = Some op" and "rtype \<noteq> []"
        by auto
      with Some True show ?thesis
        by (simp add: unfold)
    next
      case False
      with operation Some have "fst found = None \<or> fst found = Some []"
        by auto
      with Some False show ?thesis
        by (auto simp: unfold)
    qed
  qed
  from skip result [unfolded rtype_def] show "skip_to_end_exec ts i = length ts
   \<and> (case first_keyword (drop (i + 2) ts) of
        None \<Rightarrow> extract_resources_from ts i rs = rs
      | Some op \<Rightarrow>
          if value_upper (ts ! (i + 1)) \<in> set [''SQL'', ''CICS'', ''MQ''] \<and> op \<noteq> [] then
            \<exists>name. extract_resources_from ts i rs =
              rs @ [\<lparr>resource_name = name, resource_type = value_upper (ts ! (i + 1)),
                     resource_operation = op,
                     resource_location = (tok_line (ts ! i), tok_column (ts ! i))\<rparr>]
          else extract_resources_from ts i rs = rs)"
    by blast
qed

text \<open>The theorem at the tokens of \<^verbatim>\<open>EXEC SQL SELECT NAME FROM CUSTOMER\<close>.\<close>

theorem unterminated_exec_block_witness:
  "0 + 1 < length (tokenize ''       EXEC SQL SELECT NAME FROM CUSTOMER'')
   \<and> tok_type (tokenize ''       EXEC SQL SELECT NAME FROM CUSTOMER'' ! 0) = KEYWORD
   \<and> value_upper (tokenize ''       EXEC SQL SELECT NAME FROM CUSTOMER'' ! 0) = ''EXEC''
   \<and> ''END-EXEC'' \<notin> set (map value_upper
         (drop 0 (tokenize ''       EXEC SQL SELECT NAME FROM CUSTOMER'')))
   \<and> skip_to_end_exec (tokenize ''       EXEC SQL SELECT NAME FROM CUSTOMER'') 0 = 6
   \<and> (\<exists>name. extract_resources_from (tokenize ''       EXEC SQL SELECT NAME FROM CUSTOMER'') 0 [] =
         [\<lparr>resource_name = name, resource_type = ''SQL'', resource_operation = ''SELECT'',
           resource_location = (1, 8)\<rparr>])"
proof -
  define ts where "ts = tokenize ''       EXEC SQL SELECT NAME FROM CUSTOMER''"
  have vals: "map value_upper ts = [''EXEC'', ''SQL'', ''SELECT'', ''NAME'', ''FROM'', ''CUSTOMER'']"
    unfolding ts_def by (simp only: tokenize_unterminated values_unterminated)
  have len: "length ts = 6"
    unfolding ts_def by (simp add: tokenize_unterminated)
  have at: "\<And>k. k < 6 \<Longrightarrow> value_upper (ts ! k) = map value_upper ts ! k"
    by (simp add: len)
  have v0: "value_upper (ts ! 0) = ''EXEC''" and v1: "value_upper (ts ! (0 + 1)) = ''SQL''"
    and v2: "value_upper (ts ! 2) = ''SELECT''"
    by (simp_all add: at vals)
  have h1: "0 + 1 < length ts"
    by (simp add: len)
  have h2: "tok_type (ts ! 0) = KEYWORD"
    unfolding ts_def by (simp add: tokenize_unterminated)
  have h4: "''END-EXEC'' \<notin> set (map value_upper (drop 0 ts))"
    by (simp add: vals del: set_map)
  have kw: "first_keyword (drop (0 + 2) ts) = Some ''SELECT''"
    using v2 unfolding ts_def by (simp add: tokenize_unterminated first_keyword_def)
  from unterminated_exec_block [of 0 ts "[]"] h1 h2 v0 h4
  have "skip_to_end_exec ts 0 = length ts
   \<and> (case first_keyword (drop (0 + 2) ts) of
        None \<Rightarrow> extract_resources_from ts 0 [] = []
      | Some op \<Rightarrow>
          if value_upper (ts ! (0 + 1)) \<in> set [''SQL'', ''CICS'', ''MQ''] \<and> op \<noteq> [] then
            \<exists>name. extract_resources_from ts 0 [] =
              [] @ [\<lparr>resource_name = name, resource_type = value_upper (ts ! (0 + 1)),
                     resource_operation = op,
                     resource_location = (tok_line (ts ! 0), tok_column (ts ! 0))\<rparr>]
          else extract_resources_from ts 0 [] = [])"
    by blast
  then have "skip_to_end_exec ts 0 = 6
    \<and> (\<exists>name. extract_resources_from ts 0 [] =
         [\<lparr>resource_name = name, resource_type = ''SQL'', resource_operation = ''SELECT'',
           resource_location = (tok_line (ts ! 0), tok_column (ts ! 0))\<rparr>])"
    unfolding kw v1 len by simp
  moreover have "tok_line (ts ! 0) = 1" and "tok_column (ts ! 0) = 8"
    unfolding ts_def by (simp_all add: tokenize_unterminated)
  ultimately show ?thesis
    using h1 h2 v0 h4 unfolding ts_def by simp
qed

text \<open>
  Claim C5 as it is stated (no Resource for a block without END-EXEC) fails on that
  line: no token has the value END-EXEC, and the parse has the Resource CUSTOMER.
\<close>

theorem unterminated_block_emits_resource:
  "''END-EXEC'' \<notin> set (map value_upper (tokenize ''       EXEC SQL SELECT NAME FROM CUSTOMER''))
   \<and> resources (parse_source ''CUST.cbl'' ''       EXEC SQL SELECT NAME FROM CUSTOMER'') =
       [\<lparr>resource_name = ''CUSTOMER'', resource_type = ''SQL'', resource_operation = ''SELECT'',
         resource_location = (1, 8)\<rparr>]"
proof -
  have "map value_upper (tokenize ''       EXEC SQL SELECT NAME FROM CUSTOMER'') =
      [''EXEC'', ''SQL'', ''SELECT'', ''NAME'', ''FROM'', ''CUSTOMER'']"
    by (simp only: tokenize_unterminated values_unterminated)
  then show ?thesis
    by (simp add: parse_source_def Let_def tokenize_unterminated resources_unterminated)
qed

text \<open>
  Claim C8 (the words \<^verbatim>\<open>SEND MAP name\<close> or \<^verbatim>\<open>RECEIVE MAP name\<close> add the name to the maps
  of the program, outside a block and inside an \<^verbatim>\<open>EXEC CICS\<close> block). Outside a block
  the parser asks for two tokens of type KEYWORD, and MAP is not in the keyword table
  of the tokenizer (lemma \<open>map_is_never_keyword\<close>), so the bare words add nothing; inside
  a CICS block, where only the values of the tokens are compared, the same words add
  the name.
\<close>

theorem bare_send_map_adds_no_map:
  "maps_used (parse_source path ''       SEND MAP MENU1'') = {}
   \<and> maps_used (parse_source path ''       EXEC CICS SEND MAP MENU1 END-EXEC'') = {''MENU1''}"
  by (simp add: parse_source_def Let_def tokenize_send_map maps_send_map tokenize_cics_map
      maps_cics_map)

section \<open>Properties of the analyzer\<close>

subsection \<open>What one registration does to the graph and the index\<close>

lemma add_calls_apply:
  "g name \<noteq> None \<Longrightarrow>
   add_calls name cs g k =
     (if k = name then Some (the (g name) \<union> call_target ` set cs)
      else if k \<in> call_target ` set cs \<and> g k = None then Some {}
      else g k)"
proof (induction cs arbitrary: g)
  case Nil
  then show ?case by auto
next
  case (Cons c cs)
  define g1 where "g1 = g(name \<mapsto> insert (call_target c) (the (g name)))"
  define g2 where "g2 = (case g1 (call_target c) of
                  None \<Rightarrow> g1(call_target c \<mapsto> {})
                | Some callees \<Rightarrow> g1)"
  have g2name: "g2 name = Some (insert (call_target c) (the (g name)))"
    by (auto simp: g2_def g1_def split: option.splits)
  then have ne: "g2 name \<noteq> None"
    by simp
  have other: "\<And>k. k \<noteq> name \<Longrightarrow> g2 k = (if k = call_target c \<and> g k = None then Some {} else g k)"
    by (auto simp: g2_def g1_def split: option.splits)
  have "add_calls name (c # cs) g k = add_calls name cs g2 k"
    unfolding g2_def g1_def by (simp add: Let_def)
  also have "\<dots> = (if k = name then Some (the (g2 name) \<union> call_target ` set cs)
      else if k \<in> call_target ` set cs \<and> g2 k = None then Some {}
      else g2 k)"
    using ne by (rule Cons.IH [of g2])
  also have "\<dots> = (if k = name then Some (the (g name) \<union> call_target ` set (c # cs))
      else if k \<in> call_target ` set (c # cs) \<and> g k = None then Some {}
      else g k)"
    using g2name other by (cases "k = name") auto
  finally show ?case .
qed

lemma add_calls_keeps_caller: "g name \<noteq> None \<Longrightarrow> add_calls name cs g name \<noteq> None"
  by (simp add: add_calls_apply)

lemma call_graph_register:
  "call_graph (register program st) k =
     (if k = program_name program then Some (call_targets program)
      else if k \<in> call_targets program \<and> call_graph st k = None then Some {}
      else call_graph st k)"
  by (simp add: register_def add_calls_apply call_targets_def)

lemma add_resources_apply:
  "add_resources name rs u k =
     (if k \<in> (\<lambda>r. resource_type r @ '':'' @ resource_name r) ` set rs
      then Some (insert name (case u k of None \<Rightarrow> {} | Some programs \<Rightarrow> programs))
      else u k)"
proof (induction rs arbitrary: u)
  case Nil
  then show ?case by simp
next
  case (Cons r rs)
  show ?case
    by (auto simp: Let_def Cons.IH split: option.splits)
qed

lemma resource_usage_register:
  "resource_usage (register program st) k =
     (if k \<in> (\<lambda>r. resource_type r @ '':'' @ resource_name r) ` set (resources program)
      then Some (insert (program_name program)
                   (case resource_usage st k of None \<Rightarrow> {} | Some programs \<Rightarrow> programs))
      else resource_usage st k)"
  by (simp add: register_def add_resources_apply)

lemma dom_call_graph_register:
  "dom (call_graph (register program st)) =
     insert (program_name program) (call_targets program \<union> dom (call_graph st))"
  by (auto simp: call_graph_register dom_def split: if_splits)

subsection \<open>Sequences of analyses\<close>

lemma parsed_Nil: "parsed [] = []"
  by (simp add: parsed_def map_filter_simps)

lemma parsed_Cons:
  "parsed ((fs, path) # runs) =
     (case parse fs path of Inl e \<Rightarrow> parsed runs | Inr program \<Rightarrow> program # parsed runs)"
  by (simp add: parsed_def map_filter_simps split: sum.splits)

lemma analyze_sequence_Cons:
  "analyze_sequence ((fs, path) # runs) st =
     (case parse fs path of
        Inl e \<Rightarrow> analyze_sequence runs st
      | Inr program \<Rightarrow> analyze_sequence runs (register program st))"
  by (simp add: analyze_program_def split: sum.splits)

declare analyze_sequence.simps(2) [simp del]

lemma call_graph_sequence_dom:
  "dom (call_graph (analyze_sequence runs st)) =
     dom (call_graph st) \<union> program_name ` set (parsed runs)
       \<union> (\<Union>program \<in> set (parsed runs). call_targets program)"
proof (induction runs arbitrary: st)
  case Nil
  show ?case by (simp add: parsed_Nil)
next
  case (Cons run runs)
  obtain fs path where run: "run = (fs, path)"
    by (cases run)
  show ?case
  proof (cases "parse fs path")
    case (Inl e)
    then show ?thesis
      unfolding run by (simp add: analyze_sequence_Cons parsed_Cons Cons.IH)
  next
    case (Inr program)
    then show ?thesis
      unfolding run
      by (simp add: analyze_sequence_Cons parsed_Cons Cons.IH dom_call_graph_register) blast
  qed
qed

lemma call_graph_sequence_forward:
  "t \<notin> program_name ` set (parsed runs) \<Longrightarrow>
   call_graph (analyze_sequence runs st) t =
     (if t \<in> (\<Union>program \<in> set (parsed runs). call_targets program) \<and> call_graph st t = None
      then Some {} else call_graph st t)"
proof (induction runs arbitrary: st)
  case Nil
  show ?case by (simp add: parsed_Nil)
next
  case (Cons run runs)
  obtain fs path where run: "run = (fs, path)"
    by (cases run)
  show ?case
  proof (cases "parse fs path")
    case (Inl e)
    with Cons.prems have "t \<notin> program_name ` set (parsed runs)"
      unfolding run by (simp add: parsed_Cons)
    from Cons.IH [OF this] Inl show ?thesis
      unfolding run by (simp add: analyze_sequence_Cons parsed_Cons)
  next
    case (Inr program)
    with Cons.prems have a: "t \<notin> program_name ` set (parsed runs)" and b: "t \<noteq> program_name program"
      unfolding run by (auto simp: parsed_Cons)
    from Cons.IH [OF a, of "register program st"] Inr b show ?thesis
      unfolding run by (auto simp: analyze_sequence_Cons parsed_Cons call_graph_register)
  qed
qed

lemma callers_after_two:
  assumes "a \<noteq> b" and "b \<in> call_targets pa" and "a \<in> call_targets pb"
    and "a \<notin> call_targets pa" and "b \<notin> call_targets pb"
    and "program_name pa = a" and "program_name pb = b"
  shows "find_caller_programs (register pb (register pa new_analyzer)) b = {a}"
    and "find_caller_programs (register pb (register pa new_analyzer)) a = {b}"
    and "find_caller_programs (register pa (register pb new_analyzer)) b = {a}"
    and "find_caller_programs (register pa (register pb new_analyzer)) a = {b}"
  using assms
  by (auto simp: find_caller_programs_def call_graph_register new_analyzer_def
      split: option.splits if_splits)

subsection \<open>The example programs\<close>

lemma orderproc_program_facts:
  "program_name orderproc_program = ''ORDERPROC''"
  "call_targets orderproc_program = {''BILLING''}"
  "resources orderproc_program = []"
  by (simp_all add: orderproc_program_def parse_source_def Let_def call_targets_def
      name_orderproc tokenize_call_billing calls_one_literal no_exec_one_literal)

lemma billing_program_facts:
  "program_name billing_program = ''BILLING''"
  "call_targets billing_program = {''ORDERPROC''}"
  "resources billing_program = []"
  by (simp_all add: billing_program_def parse_source_def Let_def call_targets_def
      name_billing tokenize_call_orderproc calls_one_literal no_exec_one_literal)

lemma pay_first_facts:
  "program_name pay_first = ''PAY''"
  "call_targets pay_first = {''BILLING''}"
  "resources pay_first =
     [\<lparr>resource_name = ''CUSTOMER'', resource_type = ''SQL'', resource_operation = ''SELECT'',
       resource_location = (2, 8)\<rparr>]"
  by (simp_all add: pay_first_def parse_source_def Let_def call_targets_def
      name_pay tokenize_pay calls_pay resources_pay)

lemma pay_second_facts:
  "program_name pay_second = ''PAY''"
  "call_targets pay_second = {''ORDERPROC''}"
  "resources pay_second = []"
  by (simp_all add: pay_second_def parse_source_def Let_def call_targets_def
      name_pay tokenize_call_orderproc calls_one_literal no_exec_one_literal)

lemma parse_examples:
  "parse example_files ''ORDERPROC.cbl'' = Inr orderproc_program"
  "parse example_files ''BILLING.cbl'' = Inr billing_program"
  "parse example_files ''src/PAY.cbl'' = Inr pay_first"
  "parse edited_files ''src/PAY.cbl'' = Inr pay_second"
  by (simp_all add: parse_def example_files_def edited_files_def orderproc_program_def
      billing_program_def pay_first_def pay_second_def)

subsection \<open>The claims on the analyzer\<close>

text \<open>
  Claim C7. After any sequence of calls of \<^verbatim>\<open>analyze_program\<close>, from any analyzer: every
  key that the call graph had is still a key; every call target of every program that
  was parsed is a key; and a target that was no key at the start and is the name of no
  program that was analyzed has the empty set of callees.
\<close>

theorem call_targets_are_keys:
  "dom (call_graph st) \<subseteq> dom (call_graph (analyze_sequence runs st))
   \<and> (program \<in> set (parsed runs) \<longrightarrow>
        call_targets program \<subseteq> dom (call_graph (analyze_sequence runs st)))
   \<and> (program \<in> set (parsed runs) \<and> t \<in> call_targets program
        \<and> t \<notin> program_name ` set (parsed runs) \<and> t \<notin> dom (call_graph st) \<longrightarrow>
        call_graph (analyze_sequence runs st) t = Some {})"
proof (intro conjI impI)
  show "dom (call_graph st) \<subseteq> dom (call_graph (analyze_sequence runs st))"
    by (simp add: call_graph_sequence_dom) blast
next
  assume "program \<in> set (parsed runs)"
  then show "call_targets program \<subseteq> dom (call_graph (analyze_sequence runs st))"
    by (simp add: call_graph_sequence_dom) blast
next
  assume a: "program \<in> set (parsed runs) \<and> t \<in> call_targets program
        \<and> t \<notin> program_name ` set (parsed runs) \<and> t \<notin> dom (call_graph st)"
  then have "t \<notin> program_name ` set (parsed runs)"
    by simp
  from call_graph_sequence_forward [OF this, of st] a
  show "call_graph (analyze_sequence runs st) t = Some {}"
    by (auto simp: dom_def)
qed

text \<open>The theorem after one analysis of the first version of PAY, at its target BILLING.\<close>

theorem call_targets_are_keys_witness:
  "pay_first \<in> set (parsed [(example_files, ''src/PAY.cbl'')])
   \<and> ''BILLING'' \<in> call_targets pay_first
   \<and> ''BILLING'' \<notin> program_name ` set (parsed [(example_files, ''src/PAY.cbl'')])
   \<and> ''BILLING'' \<notin> dom (call_graph new_analyzer)
   \<and> call_targets pay_first
       \<subseteq> dom (call_graph (analyze_sequence [(example_files, ''src/PAY.cbl'')] new_analyzer))
   \<and> call_graph (analyze_sequence [(example_files, ''src/PAY.cbl'')] new_analyzer) ''BILLING''
       = Some {}"
proof -
  have runs: "parsed [(example_files, ''src/PAY.cbl'')] = [pay_first]"
    by (simp add: parsed_Cons parsed_Nil parse_examples)
  have h1: "pay_first \<in> set (parsed [(example_files, ''src/PAY.cbl'')])"
    by (simp add: runs)
  have h2: "''BILLING'' \<in> call_targets pay_first"
    by (simp add: pay_first_facts)
  have h3: "''BILLING'' \<notin> program_name ` set (parsed [(example_files, ''src/PAY.cbl'')])"
    by (simp add: runs pay_first_facts)
  have h4: "''BILLING'' \<notin> dom (call_graph new_analyzer)"
    by (simp add: new_analyzer_def)
  note inst = call_targets_are_keys
    [of new_analyzer "[(example_files, ''src/PAY.cbl'')]" pay_first "''BILLING''"]
  from inst [THEN conjunct2, THEN conjunct1] h1
  have c2: "call_targets pay_first
       \<subseteq> dom (call_graph (analyze_sequence [(example_files, ''src/PAY.cbl'')] new_analyzer))"
    by (rule mp)
  from h1 h2 h3 h4
  have h: "pay_first \<in> set (parsed [(example_files, ''src/PAY.cbl'')])
      \<and> ''BILLING'' \<in> call_targets pay_first
      \<and> ''BILLING'' \<notin> program_name ` set (parsed [(example_files, ''src/PAY.cbl'')])
      \<and> ''BILLING'' \<notin> dom (call_graph new_analyzer)"
    by (intro conjI)
  from inst [THEN conjunct2, THEN conjunct2] h
  have c3: "call_graph (analyze_sequence [(example_files, ''src/PAY.cbl'')] new_analyzer)
      ''BILLING'' = Some {}"
    by (rule mp)
  from h1 h2 h3 h4 c2 c3 show ?thesis
    by (intro conjI)
qed

text \<open>
  Claim C4 as the code has it. When a program is analyzed a second time under the same
  name, the registry has the second program; the callees of that name in the call
  graph are the call targets of the second program and nothing else; every key of the
  call graph is still a key, and the callees of every other key are unchanged; and
  every program in a set of the resource index is still in that set.
\<close>

theorem reanalysis_replaces_edges:
  "analyze_program fs1 path1 st = Inr (p1, st1) \<and> analyze_program fs2 path2 st1 = Inr (p2, st2)
     \<and> program_name p2 = program_name p1 \<longrightarrow>
   analyzed_programs st2 (program_name p1) = Some p2
   \<and> call_graph st2 (program_name p1) = Some (call_targets p2)
   \<and> dom (call_graph st1) \<subseteq> dom (call_graph st2)
   \<and> (k \<noteq> program_name p1 \<and> k \<in> dom (call_graph st1) \<longrightarrow> call_graph st2 k = call_graph st1 k)
   \<and> (resource_usage st1 key = Some users \<longrightarrow>
        (\<exists>users'. resource_usage st2 key = Some users' \<and> users \<subseteq> users'))"
proof
  assume a: "analyze_program fs1 path1 st = Inr (p1, st1)
     \<and> analyze_program fs2 path2 st1 = Inr (p2, st2) \<and> program_name p2 = program_name p1"
  then have st1: "st1 = register p1 st" and st2: "st2 = register p2 st1"
    and name: "program_name p2 = program_name p1"
    by (auto simp: analyze_program_def split: sum.splits)
  have 1: "analyzed_programs st2 (program_name p1) = Some p2"
    using name by (simp add: st2 register_def)
  have 2: "call_graph st2 (program_name p1) = Some (call_targets p2)"
    using name by (simp add: st2 call_graph_register)
  have 3: "dom (call_graph st1) \<subseteq> dom (call_graph st2)"
    by (auto simp: st2 dom_call_graph_register)
  have 4: "k \<noteq> program_name p1 \<and> k \<in> dom (call_graph st1) \<longrightarrow> call_graph st2 k = call_graph st1 k"
    using name by (auto simp: st2 call_graph_register)
  have 5: "resource_usage st1 key = Some users \<longrightarrow>
        (\<exists>users'. resource_usage st2 key = Some users' \<and> users \<subseteq> users')"
    by (auto simp: st2 resource_usage_register)
  from 1 2 3 4 5 show "analyzed_programs st2 (program_name p1) = Some p2
   \<and> call_graph st2 (program_name p1) = Some (call_targets p2)
   \<and> dom (call_graph st1) \<subseteq> dom (call_graph st2)
   \<and> (k \<noteq> program_name p1 \<and> k \<in> dom (call_graph st1) \<longrightarrow> call_graph st2 k = call_graph st1 k)
   \<and> (resource_usage st1 key = Some users \<longrightarrow>
        (\<exists>users'. resource_usage st2 key = Some users' \<and> users \<subseteq> users'))"
    by blast
qed

text \<open>
  The theorem at the two versions of PAY: the key BILLING and the membership of PAY
  under \<^verbatim>\<open>SQL:CUSTOMER\<close> stay, and the callees of PAY are those of the second version.
\<close>

theorem reanalysis_replaces_edges_witness:
  "analyze_program example_files ''src/PAY.cbl'' new_analyzer
     = Inr (pay_first, register pay_first new_analyzer)
   \<and> analyze_program edited_files ''src/PAY.cbl'' (register pay_first new_analyzer)
     = Inr (pay_second, register pay_second (register pay_first new_analyzer))
   \<and> program_name pay_second = program_name pay_first
   \<and> ''BILLING'' \<noteq> program_name pay_first
   \<and> ''BILLING'' \<in> dom (call_graph (register pay_first new_analyzer))
   \<and> resource_usage (register pay_first new_analyzer) ''SQL:CUSTOMER'' = Some {''PAY''}
   \<and> analyzed_programs (register pay_second (register pay_first new_analyzer)) ''PAY''
     = Some pay_second
   \<and> call_graph (register pay_second (register pay_first new_analyzer)) ''PAY''
     = Some {''ORDERPROC''}
   \<and> call_graph (register pay_second (register pay_first new_analyzer)) ''BILLING''
     = call_graph (register pay_first new_analyzer) ''BILLING''
   \<and> (\<exists>users'. resource_usage (register pay_second (register pay_first new_analyzer))
                   ''SQL:CUSTOMER'' = Some users' \<and> {''PAY''} \<subseteq> users')"
proof -
  have h1: "analyze_program example_files ''src/PAY.cbl'' new_analyzer
     = Inr (pay_first, register pay_first new_analyzer)"
    by (simp add: analyze_program_def parse_examples)
  have h2: "analyze_program edited_files ''src/PAY.cbl'' (register pay_first new_analyzer)
     = Inr (pay_second, register pay_second (register pay_first new_analyzer))"
    by (simp add: analyze_program_def parse_examples)
  have h3: "program_name pay_second = program_name pay_first"
    by (simp add: pay_first_facts pay_second_facts)
  have h4: "''BILLING'' \<noteq> program_name pay_first"
    by (simp add: pay_first_facts)
  have h5: "''BILLING'' \<in> dom (call_graph (register pay_first new_analyzer))"
    by (simp add: dom_call_graph_register pay_first_facts)
  have h6: "resource_usage (register pay_first new_analyzer) ''SQL:CUSTOMER'' = Some {''PAY''}"
    by (simp add: resource_usage_register pay_first_facts new_analyzer_def)
  note inst = reanalysis_replaces_edges
    [of example_files "''src/PAY.cbl''" new_analyzer pay_first "register pay_first new_analyzer"
      edited_files "''src/PAY.cbl''" pay_second
      "register pay_second (register pay_first new_analyzer)" "''BILLING''"
      "''SQL:CUSTOMER''" "{''PAY''}"]
  from h1 h2 h3
  have h: "analyze_program example_files ''src/PAY.cbl'' new_analyzer
       = Inr (pay_first, register pay_first new_analyzer)
     \<and> analyze_program edited_files ''src/PAY.cbl'' (register pay_first new_analyzer)
       = Inr (pay_second, register pay_second (register pay_first new_analyzer))
     \<and> program_name pay_second = program_name pay_first"
    by (intro conjI)
  note c = inst [THEN mp, OF h]
  from c [THEN conjunct1]
  have c1: "analyzed_programs (register pay_second (register pay_first new_analyzer)) ''PAY''
     = Some pay_second"
    by (simp only: pay_first_facts)
  from c [THEN conjunct2, THEN conjunct1]
  have c2: "call_graph (register pay_second (register pay_first new_analyzer)) ''PAY''
     = Some {''ORDERPROC''}"
    by (simp only: pay_first_facts pay_second_facts)
  from h4 h5 have k: "''BILLING'' \<noteq> program_name pay_first
      \<and> ''BILLING'' \<in> dom (call_graph (register pay_first new_analyzer))"
    by (intro conjI)
  from c [THEN conjunct2, THEN conjunct2, THEN conjunct2, THEN conjunct1] k
  have c4: "call_graph (register pay_second (register pay_first new_analyzer)) ''BILLING''
     = call_graph (register pay_first new_analyzer) ''BILLING''"
    by (rule mp)
  from c [THEN conjunct2, THEN conjunct2, THEN conjunct2, THEN conjunct2] h6
  have c5: "\<exists>users'. resource_usage (register pay_second (register pay_first new_analyzer))
                   ''SQL:CUSTOMER'' = Some users' \<and> {''PAY''} \<subseteq> users'"
    by (rule mp)
  from h1 h2 h3 h4 h5 h6 c1 c2 c4 c5 show ?thesis
    by (intro conjI)
qed

text \<open>
  Claim C4 as it is stated (the edges of the first analysis are still in the call graph
  after the second) fails there: PAY calls BILLING after the first analysis and no
  longer after the second, since \<^verbatim>\<open>analyze_program\<close> starts by storing the empty set for
  the name.
\<close>

theorem reanalysis_drops_old_edge:
  "''BILLING'' \<in> find_called_programs
       (analyze_sequence [(example_files, ''src/PAY.cbl'')] new_analyzer) ''PAY''
   \<and> ''BILLING'' \<notin> find_called_programs
       (analyze_sequence [(example_files, ''src/PAY.cbl''), (edited_files, ''src/PAY.cbl'')]
          new_analyzer) ''PAY''"
  by (simp add: analyze_sequence_Cons parse_examples find_called_programs_def
      call_graph_register pay_first_facts pay_second_facts)

text \<open>
  Claim C6. Two files that parse to the programs ORDERPROC and BILLING, where ORDERPROC
  calls BILLING, BILLING calls ORDERPROC and neither calls itself: after both have
  been analyzed by a new analyzer, in either order, the callers of BILLING are
  ORDERPROC alone and the callers of ORDERPROC are BILLING alone.
\<close>

theorem mutual_callers:
  "parse fs1 path1 = Inr p1 \<and> parse fs2 path2 = Inr p2
     \<and> program_name p1 = ''ORDERPROC'' \<and> program_name p2 = ''BILLING''
     \<and> ''BILLING'' \<in> call_targets p1 \<and> ''ORDERPROC'' \<in> call_targets p2
     \<and> ''ORDERPROC'' \<notin> call_targets p1 \<and> ''BILLING'' \<notin> call_targets p2 \<longrightarrow>
   find_caller_programs (analyze_sequence [(fs1, path1), (fs2, path2)] new_analyzer) ''BILLING''
     = {''ORDERPROC''}
   \<and> find_caller_programs (analyze_sequence [(fs1, path1), (fs2, path2)] new_analyzer) ''ORDERPROC''
     = {''BILLING''}
   \<and> find_caller_programs (analyze_sequence [(fs2, path2), (fs1, path1)] new_analyzer) ''BILLING''
     = {''ORDERPROC''}
   \<and> find_caller_programs (analyze_sequence [(fs2, path2), (fs1, path1)] new_analyzer) ''ORDERPROC''
     = {''BILLING''}"
proof
  assume a: "parse fs1 path1 = Inr p1 \<and> parse fs2 path2 = Inr p2
     \<and> program_name p1 = ''ORDERPROC'' \<and> program_name p2 = ''BILLING''
     \<and> ''BILLING'' \<in> call_targets p1 \<and> ''ORDERPROC'' \<in> call_targets p2
     \<and> ''ORDERPROC'' \<notin> call_targets p1 \<and> ''BILLING'' \<notin> call_targets p2"
  then have s12: "analyze_sequence [(fs1, path1), (fs2, path2)] new_analyzer
      = register p2 (register p1 new_analyzer)"
    and s21: "analyze_sequence [(fs2, path2), (fs1, path1)] new_analyzer
      = register p1 (register p2 new_analyzer)"
    by (simp_all add: analyze_sequence_Cons)
  have ne: "''ORDERPROC'' \<noteq> ''BILLING''"
    by simp
  from a callers_after_two [OF ne, of p1 p2]
  show "find_caller_programs (analyze_sequence [(fs1, path1), (fs2, path2)] new_analyzer) ''BILLING''
     = {''ORDERPROC''}
   \<and> find_caller_programs (analyze_sequence [(fs1, path1), (fs2, path2)] new_analyzer) ''ORDERPROC''
     = {''BILLING''}
   \<and> find_caller_programs (analyze_sequence [(fs2, path2), (fs1, path1)] new_analyzer) ''BILLING''
     = {''ORDERPROC''}
   \<and> find_caller_programs (analyze_sequence [(fs2, path2), (fs1, path1)] new_analyzer) ''ORDERPROC''
     = {''BILLING''}"
    unfolding s12 s21 by simp
qed

text \<open>
  The theorem at the files \<^verbatim>\<open>ORDERPROC.cbl\<close>, which holds \<^verbatim>\<open>CALL "BILLING"\<close>, and
  \<^verbatim>\<open>BILLING.cbl\<close>, which holds \<^verbatim>\<open>CALL "ORDERPROC"\<close>.
\<close>

theorem mutual_callers_witness:
  "parse example_files ''ORDERPROC.cbl'' = Inr orderproc_program
   \<and> parse example_files ''BILLING.cbl'' = Inr billing_program
   \<and> program_name orderproc_program = ''ORDERPROC''
   \<and> program_name billing_program = ''BILLING''
   \<and> ''BILLING'' \<in> call_targets orderproc_program
   \<and> ''ORDERPROC'' \<in> call_targets billing_program
   \<and> ''ORDERPROC'' \<notin> call_targets orderproc_program
   \<and> ''BILLING'' \<notin> call_targets billing_program
   \<and> find_caller_programs
        (analyze_sequence [(example_files, ''ORDERPROC.cbl''), (example_files, ''BILLING.cbl'')]
           new_analyzer) ''BILLING'' = {''ORDERPROC''}
   \<and> find_caller_programs
        (analyze_sequence [(example_files, ''ORDERPROC.cbl''), (example_files, ''BILLING.cbl'')]
           new_analyzer) ''ORDERPROC'' = {''BILLING''}
   \<and> find_caller_programs
        (analyze_sequence [(example_files, ''BILLING.cbl''), (example_files, ''ORDERPROC.cbl'')]
           new_analyzer) ''BILLING'' = {''ORDERPROC''}
   \<and> find_caller_programs
        (analyze_sequence [(example_files, ''BILLING.cbl''), (example_files, ''ORDERPROC.cbl'')]
           new_analyzer) ''ORDERPROC'' = {''BILLING''}"
proof -
  have h: "parse example_files ''ORDERPROC.cbl'' = Inr orderproc_program
   \<and> parse example_files ''BILLING.cbl'' = Inr billing_program
   \<and> program_name orderproc_program = ''ORDERPROC''
   \<and> program_name billing_program = ''BILLING''
   \<and> ''BILLING'' \<in> call_targets orderproc_program
   \<and> ''ORDERPROC'' \<in> call_targets billing_program
   \<and> ''ORDERPROC'' \<notin> call_targets orderproc_program
   \<and> ''BILLING'' \<notin> call_targets billing_program"
    by (simp add: parse_examples orderproc_program_facts billing_program_facts)
  note c = mutual_callers
    [of example_files "''ORDERPROC.cbl''" orderproc_program example_files "''BILLING.cbl''"
      billing_program, THEN mp, OF h]
  from h c show ?thesis
    by (simp only: simp_thms)
qed

end
